theory Spec2Isabelle
  imports Main "HOL-Library.Word" "HOL-Library.List_Lexorder" "HOL-Library.Char_ord"
    "HOL-Library.AList" "HOL-Library.Sublist"
begin

unbundle bit_operations_syntax

section \<open>Paths, file modes and descriptors\<close>

text \<open>
  A cleaned path is the list of its components; \<open>filepath.Join\<close> with one name appends a
  component and \<open>filepath.Dir\<close> drops the last one.
\<close>

type_synonym path = "string list"

definition filepath_Join :: "path \<Rightarrow> string \<Rightarrow> path" where
  "filepath_Join p name = p @ [name]"

definition filepath_Dir :: "path \<Rightarrow> path" where
  "filepath_Dir p = butlast p"

text \<open>\<open>os.FileMode\<close> is a \<open>uint32\<close>; the constants are those of Go's package \<open>os\<close>.\<close>

type_synonym FileMode = "32 word"

definition ModeDir :: FileMode where "ModeDir = push_bit 31 1"
definition ModeSymlink :: FileMode where "ModeSymlink = push_bit 27 1"
definition ModeDevice :: FileMode where "ModeDevice = push_bit 26 1"
definition ModeNamedPipe :: FileMode where "ModeNamedPipe = push_bit 25 1"
definition ModeSocket :: FileMode where "ModeSocket = push_bit 24 1"
definition ModeCharDevice :: FileMode where "ModeCharDevice = push_bit 21 1"
definition ModeIrregular :: FileMode where "ModeIrregular = push_bit 19 1"

definition ModeType :: FileMode where
  "ModeType = ModeDir OR ModeSymlink OR ModeNamedPipe OR ModeSocket OR ModeDevice
     OR ModeCharDevice OR ModeIrregular"

definition ModePerm :: FileMode where "ModePerm = 0x1FF"

definition IsRegular :: "FileMode \<Rightarrow> bool" where
  "IsRegular m = (m AND ModeType = 0)"

definition Perm :: "FileMode \<Rightarrow> FileMode" where
  "Perm m = m AND ModePerm"

definition tmpPermissionForDirectory :: FileMode where
  "tmpPermissionForDirectory = 0x1ED"

record Stat_t =
  Uid :: nat
  Gid :: nat
  Atim :: int

record FileInfo =
  Name :: string
  Mode :: FileMode
  ModTime :: int
  Sys :: "Stat_t option"

definition IsDir :: "FileInfo \<Rightarrow> bool" where
  "IsDir info = (Mode info AND ModeDir \<noteq> 0)"

section \<open>Errors\<close>

datatype errno = ENOENT | EEXIST | ENOTDIR | EISDIR | EACCES | EPERM | EINVAL | EBADF | ENOSYS

text \<open>The five \<open>fmt.Errorf\<close> formats of the attribute restoration, with their arguments.\<close>

datatype errfmt =
    could_not_restore_permissions FileMode path
  | could_not_restore_owner nat nat path
  | could_not_restore_owner_nostat path
  | could_not_restore_timestamp int path
  | could_not_restore_timestamp_nostat path

text \<open>
  \<open>Errorf f e\<close> is \<open>fmt.Errorf\<close> with format \<open>f\<close> and the operand \<open>e\<close> of its \<open>%w\<close> verb
  (which may be \<open>nil\<close>). \<open>UnsupportedFileTypeError\<close> carries \<open>mode\<close> and \<open>path\<close>; its field
  \<open>msg\<close> is never set.
\<close>

datatype error =
    PathError string path errno
  | LinkError string string path errno
  | Errorf errfmt "error option"
  | UnsupportedFileTypeError FileMode path
  | FileCopyTasksError path "error list"

fun is_UnsupportedFileTypeError :: "error \<Rightarrow> bool" where
  "is_UnsupportedFileTypeError (UnsupportedFileTypeError m p) = True"
| "is_UnsupportedFileTypeError e = False"

section \<open>The operating system interface\<close>

text \<open>
  The calls of packages \<open>os\<close>, \<open>io\<close> and \<open>ioutil\<close> that the program makes, over a state
  \<open>'s\<close> of the outside world. Every call takes the state and returns its result with the
  new state. An open file is named by the path it was opened with (\<open>f.Name()\<close>).
\<close>

record 's OS =
  Lstat :: "path \<Rightarrow> 's \<Rightarrow> (error + FileInfo) \<times> 's"
  MkdirAll :: "path \<Rightarrow> FileMode \<Rightarrow> 's \<Rightarrow> error option \<times> 's"
  Create :: "path \<Rightarrow> 's \<Rightarrow> error option \<times> 's"
  Open :: "path \<Rightarrow> 's \<Rightarrow> error option \<times> 's"
  Close :: "path \<Rightarrow> 's \<Rightarrow> 's"
  io_Copy :: "path \<Rightarrow> path \<Rightarrow> 's \<Rightarrow> error option \<times> 's"
  Chmod :: "path \<Rightarrow> FileMode \<Rightarrow> 's \<Rightarrow> error option \<times> 's"
  ReadDir :: "path \<Rightarrow> 's \<Rightarrow> (error + FileInfo list) \<times> 's"
  Readlink :: "path \<Rightarrow> 's \<Rightarrow> (error + string) \<times> 's"
  Symlink :: "string \<Rightarrow> path \<Rightarrow> 's \<Rightarrow> error option \<times> 's"
  Lchown :: "path \<Rightarrow> nat \<Rightarrow> nat \<Rightarrow> 's \<Rightarrow> error option \<times> 's"
  Chtimes :: "path \<Rightarrow> int \<Rightarrow> int \<Rightarrow> 's \<Rightarrow> error option \<times> 's"

section \<open>The program\<close>

text \<open>The four package-level flags.\<close>

record Flags =
  IgnoreUnsupportedFileTypes :: bool
  PreservePermissions :: bool
  PreserveOwner :: bool
  PreserveTime :: bool

definition default_Flags :: Flags where
  "default_Flags = \<lparr>IgnoreUnsupportedFileTypes = False, PreservePermissions = False,
     PreserveOwner = False, PreserveTime = False\<rparr>"

type_synonym 's FileCopyHandler = "path \<Rightarrow> path \<Rightarrow> FileInfo \<Rightarrow> 's \<Rightarrow> error option \<times> 's"

text \<open>
  The handler map, as the list of its entries in the order the \<open>range\<close> loop visits them.
\<close>

type_synonym 's Handlers = "(FileMode \<times> 's FileCopyHandler) list"

definition lcopy :: "'s OS \<Rightarrow> 's FileCopyHandler" where
  "lcopy os src dest info s =
     (case Readlink os src s of
        (Inl err, s1) \<Rightarrow> (Some err, s1)
      | (Inr src', s1) \<Rightarrow> Symlink os src' dest s1)"

definition FileTypeCopyHandlers :: "'s OS \<Rightarrow> 's Handlers" where
  "FileTypeCopyHandlers os = [(ModeSymlink, lcopy os)]"

definition fcopy :: "'s OS \<Rightarrow> path \<Rightarrow> path \<Rightarrow> FileInfo \<Rightarrow> 's \<Rightarrow> error option \<times> 's" where
  "fcopy os src dest info s =
     (case MkdirAll os (filepath_Dir dest) ModePerm s of
        (Some err, s1) \<Rightarrow> (Some err, s1)
      | (None, s1) \<Rightarrow>
          (case Create os dest s1 of
             (Some err, s2) \<Rightarrow> (Some err, s2)
           | (None, s2) \<Rightarrow>
               (case Chmod os dest (Mode info) s2 of
                  (Some err, s3) \<Rightarrow> (Some err, Close os dest s3)
                | (None, s3) \<Rightarrow>
                    (case Open os src s3 of
                       (Some err, s4) \<Rightarrow> (Some err, Close os dest s4)
                     | (None, s4) \<Rightarrow>
                         (case io_Copy os dest src s4 of
                            (err, s5) \<Rightarrow> (err, Close os dest (Close os src s5)))))))"

text \<open>
  The \<open>range\<close> loop of \<open>copy\<close> over the handlers: the first handler whose type bit is set
  in the mode runs, and the loop breaks; \<open>err\<close> stays \<open>nil\<close> when none matches.
\<close>

fun range_handlers ::
  "'s Handlers \<Rightarrow> path \<Rightarrow> path \<Rightarrow> FileInfo \<Rightarrow> 's \<Rightarrow> error option \<times> 's" where
  "range_handlers [] src dest info s = (None, s)"
| "range_handlers ((fileType, handler) # hs) src dest info s =
     (if Mode info AND fileType \<noteq> 0 then handler src dest info s
      else range_handlers hs src dest info s)"

text \<open>Lines 87 to 141 of \<open>copy\<close>: the three restoration steps, \<open>err\<close> and \<open>errs\<close> threaded.\<close>

definition restore_permissions ::
  "'s OS \<Rightarrow> Flags \<Rightarrow> path \<Rightarrow> FileInfo \<Rightarrow> error option \<times> error list \<times> 's
    \<Rightarrow> error option \<times> error list \<times> 's" where
  "restore_permissions os fl dest info st =
     (case st of (err, errs, s) \<Rightarrow>
        if PreservePermissions fl then
          (case Chmod os dest (Perm (Mode info)) s of
             (None, s') \<Rightarrow> (None, errs, s')
           | (Some e, s') \<Rightarrow>
               (let err = Errorf (could_not_restore_permissions (Perm (Mode info)) dest) (Some e)
                in (Some err, errs @ [err], s')))
        else (err, errs, s))"

definition restore_owner ::
  "'s OS \<Rightarrow> Flags \<Rightarrow> path \<Rightarrow> Stat_t option \<Rightarrow> error option \<times> error list \<times> 's
    \<Rightarrow> error option \<times> error list \<times> 's" where
  "restore_owner os fl dest stat st =
     (case st of (err, errs, s) \<Rightarrow>
        if PreserveOwner fl then
          (case stat of
             Some st \<Rightarrow>
               (case Lchown os dest (Uid st) (Gid st) s of
                  (None, s') \<Rightarrow> (None, errs, s')
                | (Some e, s') \<Rightarrow>
                    (let err = Errorf (could_not_restore_owner (Uid st) (Gid st) dest) (Some e)
                     in (Some err, errs @ [err], s')))
           | None \<Rightarrow>
               (let err = Errorf (could_not_restore_owner_nostat dest) err
                in (Some err, errs @ [err], s)))
        else (err, errs, s))"

definition restore_time ::
  "'s OS \<Rightarrow> Flags \<Rightarrow> path \<Rightarrow> FileInfo \<Rightarrow> Stat_t option \<Rightarrow> error option \<times> error list \<times> 's
    \<Rightarrow> error option \<times> error list \<times> 's" where
  "restore_time os fl dest info stat st =
     (case st of (err, errs, s) \<Rightarrow>
        if PreserveTime fl then
          (case stat of
             Some st \<Rightarrow>
               (case Chtimes os dest (Atim st) (ModTime info) s of
                  (None, s') \<Rightarrow> (None, errs, s')
                | (Some e, s') \<Rightarrow>
                    (let err = Errorf (could_not_restore_timestamp (ModTime info) dest) (Some e)
                     in (Some err, errs @ [err], s')))
           | None \<Rightarrow>
               (let err = Errorf (could_not_restore_timestamp_nostat dest) err
                in (Some err, errs @ [err], s)))
        else (err, errs, s))"

definition restore :: "'s OS \<Rightarrow> Flags \<Rightarrow> path \<Rightarrow> FileInfo \<Rightarrow> 's \<Rightarrow> error option \<times> 's" where
  "restore os fl dest info s =
     (let st1 = restore_permissions os fl dest info (None, [], s);
          stat = (if PreserveOwner fl \<or> PreserveTime fl then Sys info else None);
          st2 = restore_owner os fl dest stat st1;
          st3 = restore_time os fl dest info stat st2
      in case st3 of (err, errs, s') \<Rightarrow>
           if length errs > 0 then (Some (FileCopyTasksError dest errs), s') else (None, s'))"

text \<open>
  \<open>copy\<close>, \<open>dcopy\<close> and the loop of \<open>dcopy\<close> over the directory's contents. The recursion
  follows the file system, which the program itself changes, so it carries fuel: each
  directory level takes one unit, and \<open>None\<close> is a run that has not returned.
  The deferred \<open>os.Chmod\<close> of \<open>dcopy\<close> runs on every return after it is scheduled.
\<close>

function (sequential) copy ::
    "nat \<Rightarrow> 's OS \<Rightarrow> Flags \<Rightarrow> 's Handlers \<Rightarrow> path \<Rightarrow> path \<Rightarrow> FileInfo \<Rightarrow> 's
      \<Rightarrow> (error option \<times> 's) option"
  and dcopy ::
    "nat \<Rightarrow> 's OS \<Rightarrow> Flags \<Rightarrow> 's Handlers \<Rightarrow> path \<Rightarrow> path \<Rightarrow> FileInfo \<Rightarrow> 's
      \<Rightarrow> (error option \<times> 's) option"
  and dcopy_loop ::
    "nat \<Rightarrow> 's OS \<Rightarrow> Flags \<Rightarrow> 's Handlers \<Rightarrow> path \<Rightarrow> path \<Rightarrow> FileInfo list \<Rightarrow> 's
      \<Rightarrow> (error option \<times> 's) option"
  where
  "copy n os fl hs src dest info s =
     (case (if IsRegular (Mode info) then Some (fcopy os src dest info s)
            else if IsDir info then dcopy n os fl hs src dest info s
            else (case range_handlers hs src dest info s of
                    (err, s') \<Rightarrow> Some (Some (UnsupportedFileTypeError (Mode info) src), s')))
      of None \<Rightarrow> None
       | Some (Some err, s') \<Rightarrow> Some (Some err, s')
       | Some (None, s') \<Rightarrow> Some (restore os fl dest info s'))"
| "dcopy 0 os fl hs srcdir destdir info s = None"
| "dcopy (Suc n) os fl hs srcdir destdir info s =
     (let originalMode = Mode info in
      case MkdirAll os destdir tmpPermissionForDirectory s of
        (Some err, s1) \<Rightarrow> Some (Some err, s1)
      | (None, s1) \<Rightarrow>
          (case (case ReadDir os srcdir s1 of
                   (Inl err, s2) \<Rightarrow> Some (Some err, s2)
                 | (Inr contents, s2) \<Rightarrow> dcopy_loop n os fl hs srcdir destdir contents s2)
           of None \<Rightarrow> None
            | Some (r, s3) \<Rightarrow> Some (r, snd (Chmod os destdir originalMode s3))))"
| "dcopy_loop n os fl hs srcdir destdir [] s = Some (None, s)"
| "dcopy_loop n os fl hs srcdir destdir (content # contents) s =
     (let cs = filepath_Join srcdir (Name content);
          cd = filepath_Join destdir (Name content)
      in case copy n os fl hs cs cd content s of
           None \<Rightarrow> None
         | Some (None, s') \<Rightarrow> dcopy_loop n os fl hs srcdir destdir contents s'
         | Some (Some err, s') \<Rightarrow>
             if is_UnsupportedFileTypeError err then
               (if \<not> IgnoreUnsupportedFileTypes fl then Some (Some err, s')
                else dcopy_loop n os fl hs srcdir destdir contents s')
             else Some (Some err, s'))"
  by pat_completeness auto
termination
  by (relation "measures [
        (\<lambda>x. case x of Inl (n, _) \<Rightarrow> n | Inr (Inl (n, _)) \<Rightarrow> n | Inr (Inr (n, _)) \<Rightarrow> n),
        (\<lambda>x. case x of Inl _ \<Rightarrow> 1 | Inr (Inl _) \<Rightarrow> 0 | Inr (Inr _) \<Rightarrow> 2),
        (\<lambda>x. case x of Inl _ \<Rightarrow> 0 | Inr (Inl _) \<Rightarrow> 0
           | Inr (Inr (n, os, fl, hs, srcdir, destdir, contents, s)) \<Rightarrow> length contents)]")
     auto

declare copy.simps [simp del]

definition Copy ::
  "nat \<Rightarrow> 's OS \<Rightarrow> Flags \<Rightarrow> 's Handlers \<Rightarrow> path \<Rightarrow> path \<Rightarrow> 's \<Rightarrow> (error option \<times> 's) option" where
  "Copy n os fl hs src dest s =
     (case Lstat os src s of
        (Inl err, s1) \<Rightarrow> Some (Some err, s1)
      | (Inr info, s1) \<Rightarrow>
          (case copy n os fl hs src dest info s1 of
             None \<Rightarrow> None
           | Some (None, s2) \<Rightarrow> Some (None, s2)
           | Some (Some err, s2) \<Rightarrow>
               if is_UnsupportedFileTypeError err then
                 (if \<not> IgnoreUnsupportedFileTypes fl then Some (Some err, s2)
                  else Some (None, s2))
               else Some (Some err, s2)))"

section \<open>A file system for the interface\<close>

text \<open>
  The file system the program runs on: a tree of regular files, directories, symbolic
  links and special files. A node carries nine permission bits, an owner, a group and two
  times; the set-user-ID, set-group-ID and sticky bits are outside the model: no node has
  them, and \<open>Chmod\<close> keeps the nine permission bits of the mode it is given. The calling
  process has an effective user and group and sees one clock value; new nodes get exactly
  the mode bits asked for (the umask is 0). A path is resolved through directories only,
  and needs search permission on each of them; a call that would follow a symbolic link
  is outside the model and fails with \<open>ENOSYS\<close>.
\<close>

record attrs =
  perm :: "9 word"
  uid :: nat
  gid :: nat
  atime :: int
  mtime :: int

datatype special = NamedPipe | Socket | Device | CharDevice | Irregular

datatype node =
    File attrs "8 word list"
  | Directory attrs "(string \<times> node) list"
  | Link attrs string
  | Special special attrs

record proc =
  euid :: nat
  egid :: nat
  clock :: int

fun type_bits :: "special \<Rightarrow> FileMode" where
  "type_bits NamedPipe = ModeNamedPipe"
| "type_bits Socket = ModeSocket"
| "type_bits Device = ModeDevice"
| "type_bits CharDevice = ModeDevice OR ModeCharDevice"
| "type_bits Irregular = ModeIrregular"

fun node_attrs :: "node \<Rightarrow> attrs" where
  "node_attrs (File a bs) = a"
| "node_attrs (Directory a es) = a"
| "node_attrs (Link a t) = a"
| "node_attrs (Special k a) = a"

fun node_mode :: "node \<Rightarrow> FileMode" where
  "node_mode (File a bs) = ucast (perm a)"
| "node_mode (Directory a es) = ModeDir OR ucast (perm a)"
| "node_mode (Link a t) = ModeSymlink OR ucast (perm a)"
| "node_mode (Special k a) = type_bits k OR ucast (perm a)"

definition file_info :: "string \<Rightarrow> node \<Rightarrow> FileInfo" where
  "file_info name n =
     \<lparr>Name = name, Mode = node_mode n, ModTime = mtime (node_attrs n),
      Sys = Some \<lparr>Uid = uid (node_attrs n), Gid = gid (node_attrs n),
                  Atim = atime (node_attrs n)\<rparr>\<rparr>"

definition new_attrs :: "proc \<Rightarrow> 9 word \<Rightarrow> attrs" where
  "new_attrs pr p = \<lparr>perm = p, uid = euid pr, gid = egid pr, atime = clock pr, mtime = clock pr\<rparr>"

datatype access = R | W | X

text \<open>
  The permission check of the kernel: the superuser passes; otherwise the owner's, the
  group's or the others' three bits decide.
\<close>

definition may :: "proc \<Rightarrow> access \<Rightarrow> attrs \<Rightarrow> bool" where
  "may pr acc a =
     (euid pr = 0 \<or>
      bit (perm a)
        ((if uid a = euid pr then 6 else if gid a = egid pr then 3 else 0)
         + (case acc of R \<Rightarrow> 2 | W \<Rightarrow> 1 | X \<Rightarrow> 0)))"

definition owns :: "proc \<Rightarrow> attrs \<Rightarrow> bool" where
  "owns pr a = (euid pr = 0 \<or> euid pr = uid a)"

fun resolve :: "proc \<Rightarrow> node \<Rightarrow> path \<Rightarrow> errno + node" where
  "resolve pr n [] = Inr n"
| "resolve pr (Directory a es) (x # p) =
     (if \<not> may pr X a then Inl EACCES
      else case map_of es x of None \<Rightarrow> Inl ENOENT | Some c \<Rightarrow> resolve pr c p)"
| "resolve pr n (x # p) = Inl ENOTDIR"

text \<open>
  The node at a relative path inside a tree, whatever the permissions: what is there,
  as opposed to what the process may reach.
\<close>

fun node_at :: "node \<Rightarrow> path \<Rightarrow> node option" where
  "node_at n [] = Some n"
| "node_at (Directory a es) (x # p) =
     (case map_of es x of None \<Rightarrow> None | Some c \<Rightarrow> node_at c p)"
| "node_at n (x # p) = None"

text \<open>
  \<open>put p n fs\<close> is \<open>fs\<close> with the node \<open>n\<close> at \<open>p\<close>: in place of the node there, or as a
  new last entry of the directory above. Nothing changes when that directory is missing.
\<close>

fun put :: "path \<Rightarrow> node \<Rightarrow> node \<Rightarrow> node" where
  "put [] n fs = n"
| "put (x # p) n (Directory a es) =
     (case map_of es x of
        None \<Rightarrow> if p = [] then Directory a (AList.update x n es) else Directory a es
      | Some c \<Rightarrow> Directory a (AList.update x (put p n c) es))"
| "put (x # p) n fs = fs"

definition base :: "path \<Rightarrow> string" where
  "base p = (if p = [] then ''/'' else last p)"

definition add_entry ::
  "proc \<Rightarrow> (errno \<Rightarrow> error) \<Rightarrow> path \<Rightarrow> node \<Rightarrow> node \<Rightarrow> error option \<times> node" where
  "add_entry pr mk p new fs =
     (if p = [] then (Some (mk EEXIST), fs)
      else case resolve pr fs (butlast p) of
             Inl e \<Rightarrow> (Some (mk e), fs)
           | Inr (Directory a es) \<Rightarrow>
               if \<not> may pr X a then (Some (mk EACCES), fs)
               else if map_of es (last p) \<noteq> None then (Some (mk EEXIST), fs)
               else if \<not> may pr W a then (Some (mk EACCES), fs)
               else (None, put p new fs)
           | Inr _ \<Rightarrow> (Some (mk ENOTDIR), fs))"

definition px_Lstat :: "proc \<Rightarrow> path \<Rightarrow> node \<Rightarrow> (error + FileInfo) \<times> node" where
  "px_Lstat pr p fs =
     (case resolve pr fs p of
        Inl e \<Rightarrow> (Inl (PathError ''lstat'' p e), fs)
      | Inr n \<Rightarrow> (Inr (file_info (base p) n), fs))"

definition px_Mkdir :: "proc \<Rightarrow> path \<Rightarrow> FileMode \<Rightarrow> node \<Rightarrow> error option \<times> node" where
  "px_Mkdir pr p m fs =
     add_entry pr (PathError ''mkdir'' p) p (Directory (new_attrs pr (ucast m)) []) fs"

text \<open>
  \<open>os.MkdirAll\<close>: nothing to do for a directory; otherwise the parent first, then the
  directory itself. (Its second look after a failed \<open>Mkdir\<close> finds what the first found.)
\<close>

function px_MkdirAll :: "proc \<Rightarrow> path \<Rightarrow> FileMode \<Rightarrow> node \<Rightarrow> error option \<times> node" where
  "px_MkdirAll pr p m fs =
     (case resolve pr fs p of
        Inr (Directory a es) \<Rightarrow> (None, fs)
      | Inr (Link a t) \<Rightarrow> (Some (PathError ''stat'' p ENOSYS), fs)
      | Inr _ \<Rightarrow> (Some (PathError ''mkdir'' p ENOTDIR), fs)
      | Inl e \<Rightarrow>
          if p = [] then (Some (PathError ''mkdir'' p e), fs)
          else (case px_MkdirAll pr (butlast p) m fs of
                  (Some err, fs') \<Rightarrow> (Some err, fs')
                | (None, fs') \<Rightarrow> px_Mkdir pr p m fs'))"
  by pat_completeness auto
termination
  by (relation "measure (\<lambda>(pr, p, m, fs). length p)") auto

declare px_MkdirAll.simps [simp del]

definition px_Create :: "proc \<Rightarrow> path \<Rightarrow> node \<Rightarrow> error option \<times> node" where
  "px_Create pr p fs =
     (case resolve pr fs p of
        Inr (File a bs) \<Rightarrow>
          if may pr R a \<and> may pr W a then (None, put p (File a []) fs)
          else (Some (PathError ''open'' p EACCES), fs)
      | Inr (Directory a es) \<Rightarrow> (Some (PathError ''open'' p EISDIR), fs)
      | Inr _ \<Rightarrow> (Some (PathError ''open'' p ENOSYS), fs)
      | Inl ENOENT \<Rightarrow>
          add_entry pr (PathError ''open'' p) p (File (new_attrs pr 0x1B6) []) fs
      | Inl e \<Rightarrow> (Some (PathError ''open'' p e), fs))"

definition px_Open :: "proc \<Rightarrow> path \<Rightarrow> node \<Rightarrow> error option \<times> node" where
  "px_Open pr p fs =
     (case resolve pr fs p of
        Inr (File a bs) \<Rightarrow>
          if may pr R a then (None, fs) else (Some (PathError ''open'' p EACCES), fs)
      | Inr (Directory a es) \<Rightarrow>
          if may pr R a then (None, fs) else (Some (PathError ''open'' p EACCES), fs)
      | Inr _ \<Rightarrow> (Some (PathError ''open'' p ENOSYS), fs)
      | Inl e \<Rightarrow> (Some (PathError ''open'' p e), fs))"

text \<open>
  \<open>io.Copy\<close> between two open files: the bytes of the source replace the destination's.
  The files are found where they were opened, with no permission asked again.
\<close>

definition px_io_Copy :: "path \<Rightarrow> path \<Rightarrow> node \<Rightarrow> error option \<times> node" where
  "px_io_Copy dst src fs =
     (case node_at fs src of
        Some (File b bs) \<Rightarrow>
          (case node_at fs dst of
             Some (File a old) \<Rightarrow> (None, put dst (File a bs) fs)
           | _ \<Rightarrow> (Some (PathError ''write'' dst EBADF), fs))
      | Some (Directory b es) \<Rightarrow> (Some (PathError ''read'' src EISDIR), fs)
      | _ \<Rightarrow> (Some (PathError ''read'' src EBADF), fs))"

fun set_perm :: "9 word \<Rightarrow> node \<Rightarrow> node" where
  "set_perm p (File a bs) = File (a\<lparr>perm := p\<rparr>) bs"
| "set_perm p (Directory a es) = Directory (a\<lparr>perm := p\<rparr>) es"
| "set_perm p (Link a t) = Link (a\<lparr>perm := p\<rparr>) t"
| "set_perm p (Special k a) = Special k (a\<lparr>perm := p\<rparr>)"

fun set_owner :: "nat \<Rightarrow> nat \<Rightarrow> node \<Rightarrow> node" where
  "set_owner u g (File a bs) = File (a\<lparr>uid := u, gid := g\<rparr>) bs"
| "set_owner u g (Directory a es) = Directory (a\<lparr>uid := u, gid := g\<rparr>) es"
| "set_owner u g (Link a t) = Link (a\<lparr>uid := u, gid := g\<rparr>) t"
| "set_owner u g (Special k a) = Special k (a\<lparr>uid := u, gid := g\<rparr>)"

fun set_times :: "int \<Rightarrow> int \<Rightarrow> node \<Rightarrow> node" where
  "set_times at mt (File a bs) = File (a\<lparr>atime := at, mtime := mt\<rparr>) bs"
| "set_times at mt (Directory a es) = Directory (a\<lparr>atime := at, mtime := mt\<rparr>) es"
| "set_times at mt (Link a t) = Link (a\<lparr>atime := at, mtime := mt\<rparr>) t"
| "set_times at mt (Special k a) = Special k (a\<lparr>atime := at, mtime := mt\<rparr>)"

fun is_Link :: "node \<Rightarrow> bool" where
  "is_Link (Link a t) = True"
| "is_Link n = False"

definition px_Chmod :: "proc \<Rightarrow> path \<Rightarrow> FileMode \<Rightarrow> node \<Rightarrow> error option \<times> node" where
  "px_Chmod pr p m fs =
     (case resolve pr fs p of
        Inl e \<Rightarrow> (Some (PathError ''chmod'' p e), fs)
      | Inr n \<Rightarrow>
          if is_Link n then (Some (PathError ''chmod'' p ENOSYS), fs)
          else if \<not> owns pr (node_attrs n) then (Some (PathError ''chmod'' p EPERM), fs)
          else (None, put p (set_perm (ucast m) n) fs))"

text \<open>
  \<open>ioutil.ReadDir\<close>: the directory is opened for reading and its entries are \<open>lstat\<close>ed
  one by one in the order they are stored, which needs search permission on the
  directory; the first failure is returned, on the path of that entry. The list is
  sorted by name.
\<close>

definition px_ReadDir :: "proc \<Rightarrow> path \<Rightarrow> node \<Rightarrow> (error + FileInfo list) \<times> node" where
  "px_ReadDir pr p fs =
     (case resolve pr fs p of
        Inl e \<Rightarrow> (Inl (PathError ''open'' p e), fs)
      | Inr (Directory a es) \<Rightarrow>
          if \<not> may pr R a then (Inl (PathError ''open'' p EACCES), fs)
          else (case es of
                  [] \<Rightarrow> (Inr [], fs)
                | (name, c) # _ \<Rightarrow>
                    if \<not> may pr X a
                    then (Inl (PathError ''lstat'' (p @ [name]) EACCES), fs)
                    else (Inr (sort_key Name (map (\<lambda>(name, c). file_info name c) es)), fs))
      | Inr (Link a t) \<Rightarrow> (Inl (PathError ''open'' p ENOSYS), fs)
      | Inr _ \<Rightarrow> (Inl (PathError ''readdirent'' p ENOTDIR), fs))"

definition px_Readlink :: "proc \<Rightarrow> path \<Rightarrow> node \<Rightarrow> (error + string) \<times> node" where
  "px_Readlink pr p fs =
     (case resolve pr fs p of
        Inl e \<Rightarrow> (Inl (PathError ''readlink'' p e), fs)
      | Inr (Link a t) \<Rightarrow> (Inr t, fs)
      | Inr _ \<Rightarrow> (Inl (PathError ''readlink'' p EINVAL), fs))"

definition px_Symlink :: "proc \<Rightarrow> string \<Rightarrow> path \<Rightarrow> node \<Rightarrow> error option \<times> node" where
  "px_Symlink pr t p fs =
     add_entry pr (LinkError ''symlink'' t p) p (Link (new_attrs pr 0x1FF) t) fs"

text \<open>
  \<open>os.Lchown\<close> does not follow a link. A process that is not the superuser may only keep
  the owner of its own file, and give it its own group.
\<close>

definition px_Lchown :: "proc \<Rightarrow> path \<Rightarrow> nat \<Rightarrow> nat \<Rightarrow> node \<Rightarrow> error option \<times> node" where
  "px_Lchown pr p u g fs =
     (case resolve pr fs p of
        Inl e \<Rightarrow> (Some (PathError ''lchown'' p e), fs)
      | Inr n \<Rightarrow>
          if euid pr = 0 \<or>
             (euid pr = uid (node_attrs n) \<and> u = uid (node_attrs n)
              \<and> (g = gid (node_attrs n) \<or> g = egid pr))
          then (None, put p (set_owner u g n) fs)
          else (Some (PathError ''lchown'' p EPERM), fs))"

definition px_Chtimes :: "proc \<Rightarrow> path \<Rightarrow> int \<Rightarrow> int \<Rightarrow> node \<Rightarrow> error option \<times> node" where
  "px_Chtimes pr p at mt fs =
     (case resolve pr fs p of
        Inl e \<Rightarrow> (Some (PathError ''chtimes'' p e), fs)
      | Inr n \<Rightarrow>
          if is_Link n then (Some (PathError ''chtimes'' p ENOSYS), fs)
          else if \<not> owns pr (node_attrs n) then (Some (PathError ''chtimes'' p EPERM), fs)
          else (None, put p (set_times at mt n) fs))"

definition posix :: "proc \<Rightarrow> node OS" where
  "posix pr =
     \<lparr>Lstat = px_Lstat pr, MkdirAll = px_MkdirAll pr, Create = px_Create pr,
      Open = px_Open pr, Close = (\<lambda>p fs. fs), io_Copy = px_io_Copy,
      Chmod = px_Chmod pr, ReadDir = px_ReadDir pr, Readlink = px_Readlink pr,
      Symlink = px_Symlink pr, Lchown = px_Lchown pr, Chtimes = px_Chtimes pr\<rparr>"

section \<open>What a copy should leave\<close>

text \<open>
  The tree a copy of \<open>t\<close> leaves at the destination when no owner or time is restored:
  the same names, bytes, link targets and permission bits, owned by the process and
  stamped with its clock; special files are left out.
\<close>

fun keep :: "('a \<times> 'b option) list \<Rightarrow> ('a \<times> 'b) list" where
  "keep [] = []"
| "keep ((name, None) # es) = keep es"
| "keep ((name, Some c) # es) = (name, c) # keep es"

primrec img :: "proc \<Rightarrow> node \<Rightarrow> node option" where
  "img pr (File a bs) = Some (File (new_attrs pr (perm a)) bs)"
| "img pr (Directory a es) =
     Some (Directory (new_attrs pr (perm a)) (keep (map (map_prod id (img pr)) es)))"
| "img pr (Link a t) = Some (Link (new_attrs pr 0x1FF) t)"
| "img pr (Special k a) = None"

definition img_entries :: "proc \<Rightarrow> (string \<times> node) list \<Rightarrow> (string \<times> node) list" where
  "img_entries pr es = keep (map (map_prod id (img pr)) es)"

text \<open>
  The error the dispatch step ends with for an entry it has copied: none for a regular
  file or a directory, the unsupported-type error for every other entry.
\<close>

fun dispatch_error :: "node \<Rightarrow> path \<Rightarrow> error option" where
  "dispatch_error (File a bs) src = None"
| "dispatch_error (Directory a es) src = None"
| "dispatch_error n src = Some (UnsupportedFileTypeError (node_mode n) src)"

text \<open>Only regular files and directories.\<close>

primrec plain :: "node \<Rightarrow> bool" where
  "plain (File a bs) = True"
| "plain (Directory a es) = list_all snd (map (map_prod id plain) es)"
| "plain (Link a t) = False"
| "plain (Special k a) = False"

text \<open>
  What the process needs of a source tree: read permission on files, read and search
  permission on directories, whose entries are listed in name order, each name once.
\<close>

primrec readable :: "proc \<Rightarrow> node \<Rightarrow> bool" where
  "readable pr (File a bs) = may pr R a"
| "readable pr (Directory a es) =
     (may pr R a \<and> may pr X a \<and> sorted (map fst es) \<and> distinct (map fst es)
      \<and> list_all snd (map (map_prod id (readable pr)) es))"
| "readable pr (Link a t) = True"
| "readable pr (Special k a) = True"

text \<open>The number of directory levels, which is the fuel a copy of the tree takes.\<close>

primrec depth :: "node \<Rightarrow> nat" where
  "depth (File a bs) = 0"
| "depth (Directory a es) = Suc (foldr max (map snd (map (map_prod id depth) es)) 0)"
| "depth (Link a t) = 0"
| "depth (Special k a) = 0"

text \<open>
  A destination that does not exist yet, in an existing directory the process may
  search and write.
\<close>

definition vacant :: "proc \<Rightarrow> node \<Rightarrow> path \<Rightarrow> bool" where
  "vacant pr fs p =
     (p \<noteq> [] \<and>
      (case resolve pr fs (butlast p) of
         Inr (Directory a es) \<Rightarrow> may pr X a \<and> may pr W a \<and> map_of es (last p) = None
       | _ \<Rightarrow> False))"

section \<open>A small disk for examples\<close>

text \<open>
  A user process, and a disk whose directory \<open>src\<close> has mode 0500 and holds two regular
  files, a symbolic link and a named pipe.
\<close>

definition user :: proc where
  "user = \<lparr>euid = 1000, egid = 1000, clock = 7\<rparr>"

definition owned :: "9 word \<Rightarrow> attrs" where
  "owned p = \<lparr>perm = p, uid = 1000, gid = 1000, atime = 1, mtime = 2\<rparr>"

definition disk :: node where
  "disk = Directory (owned 0x1ED)
     [(''src'', Directory (owned 0x140)
         [(''a'', File (owned 0x180) [1, 2, 3]),
          (''l'', Link (owned 0x1FF) ''/etc/hosts''),
          (''p'', Special NamedPipe (owned 0x1A4)),
          (''z'', File (owned 0x1A4) [9])])]"

text \<open>
  A disk whose directory \<open>src\<close> has mode 0500 and holds a regular file of mode 0600 and
  a directory of mode 0700 with one more file; and one whose \<open>src\<close> holds two regular
  files with a symbolic link between them.
\<close>

definition plain_disk :: node where
  "plain_disk = Directory (owned 0x1ED)
     [(''src'', Directory (owned 0x140)
         [(''a'', File (owned 0x180) [1, 2, 3]),
          (''sub'', Directory (owned 0x1C0) [(''b'', File (owned 0x1A4) [9])])])]"

definition link_disk :: node where
  "link_disk = Directory (owned 0x1ED)
     [(''src'', Directory (owned 0x1ED)
         [(''a'', File (owned 0x1A4) [1, 2, 3]),
          (''l'', Link (owned 0x1FF) ''a''),
          (''z'', File (owned 0x1A4) [9])])]"

section \<open>The dispatch step, for any operating system\<close>

lemma copy_regular:
  "IsRegular (Mode info) \<Longrightarrow>
   copy n os fl hs src dest info s =
     (case fcopy os src dest info s of
        (Some err, s') \<Rightarrow> Some (Some err, s')
      | (None, s') \<Rightarrow> Some (restore os fl dest info s'))"
  by (simp add: copy.simps split: prod.splits option.splits)

lemma copy_directory:
  "\<not> IsRegular (Mode info) \<Longrightarrow> IsDir info \<Longrightarrow>
   copy n os fl hs src dest info s =
     (case dcopy n os fl hs src dest info s of
        None \<Rightarrow> None
      | Some (Some err, s') \<Rightarrow> Some (Some err, s')
      | Some (None, s') \<Rightarrow> Some (restore os fl dest info s'))"
  by (simp add: copy.simps)

lemma copy_other:
  "\<not> IsRegular (Mode info) \<Longrightarrow> \<not> IsDir info \<Longrightarrow>
   copy n os fl hs src dest info s =
     Some (Some (UnsupportedFileTypeError (Mode info) src),
           snd (range_handlers hs src dest info s))"
  by (simp add: copy.simps split: prod.splits)

text \<open>
  C2. The claim: for an entry that is neither regular nor a directory, the dispatch step
  returns an unsupported-type error exactly when no handler matches, and none when a
  matching handler succeeds. The code assigns the error after the loop over the handlers,
  whatever the loop did: for every handler list, the result is the unsupported-type error
  with the entry's mode and path, in the state the loop left.
\<close>

theorem copy_unsupported_whatever_the_handlers:
  assumes "\<not> IsRegular (Mode info)" and "\<not> IsDir info"
  shows "copy n os fl hs src dest info s =
           Some (Some (UnsupportedFileTypeError (Mode info) src),
                 snd (range_handlers hs src dest info s))"
  using assms by (rule copy_other)

theorem copy_unsupported_whatever_the_handlers_witness:
  "range_handlers (FileTypeCopyHandlers (posix user)) [''src'', ''l''] [''dst'']
      (file_info ''l'' (Link (owned 0x1FF) ''/etc/hosts'')) disk
     = (None, put [''dst''] (Link (new_attrs user 0x1FF) ''/etc/hosts'') disk)
   \<and> copy 0 (posix user) default_Flags (FileTypeCopyHandlers (posix user))
      [''src'', ''l''] [''dst''] (file_info ''l'' (Link (owned 0x1FF) ''/etc/hosts'')) disk
     = Some (Some (UnsupportedFileTypeError (ModeSymlink OR 0x1FF) [''src'', ''l'']),
             put [''dst''] (Link (new_attrs user 0x1FF) ''/etc/hosts'') disk)"
proof -
  let ?info = "file_info ''l'' (Link (owned 0x1FF) ''/etc/hosts'')"
  have h1: "\<not> IsRegular (Mode ?info)" by code_simp
  have h2: "\<not> IsDir ?info" by code_simp
  have r: "range_handlers (FileTypeCopyHandlers (posix user)) [''src'', ''l''] [''dst'']
             ?info disk
           = (None, put [''dst''] (Link (new_attrs user 0x1FF) ''/etc/hosts'') disk)"
    by code_simp
  show ?thesis
    using copy_unsupported_whatever_the_handlers [OF h1 h2, of 0 "posix user" default_Flags
        "FileTypeCopyHandlers (posix user)" "[''src'', ''l'']" "[''dst'']" disk] r
    by (simp add: file_info_def owned_def)
qed

text \<open>
  C3. The claim: after a successful content copy by any of the three branches, the
  attribute restoration runs on the destination and its result is the result of the
  dispatch step. This holds for the regular-file branch and for the directory branch. In
  the handler branch the code differs: when the symbolic-link handler has succeeded and
  left the state \<open>s'\<close>, the step returns the unsupported-type error in that same state,
  and the restoration has not run.
\<close>

theorem copy_restore_by_branch:
  "(IsRegular (Mode info) \<longrightarrow> fcopy os src dest info s = (None, s') \<longrightarrow>
      copy n os fl hs src dest info s = Some (restore os fl dest info s'))
   \<and> (\<not> IsRegular (Mode info) \<longrightarrow> IsDir info \<longrightarrow>
      dcopy n os fl hs src dest info s = Some (None, s') \<longrightarrow>
      copy n os fl hs src dest info s = Some (restore os fl dest info s'))
   \<and> (\<not> IsRegular (Mode info) \<longrightarrow> \<not> IsDir info \<longrightarrow> Mode info AND ModeSymlink \<noteq> 0 \<longrightarrow>
      lcopy os src dest info s = (None, s') \<longrightarrow>
      copy n os fl (FileTypeCopyHandlers os) src dest info s =
        Some (Some (UnsupportedFileTypeError (Mode info) src), s'))"
  by (simp add: copy_regular copy_directory copy_other FileTypeCopyHandlers_def)

theorem copy_restore_by_branch_witness:
  "lcopy (posix user) [''src'', ''l''] [''dst'']
      (file_info ''l'' (Link (owned 0x1FF) ''/etc/hosts'')) disk
     = (None, put [''dst''] (Link (new_attrs user 0x1FF) ''/etc/hosts'') disk)
   \<and> copy 0 (posix user) (default_Flags\<lparr>PreserveTime := True\<rparr>)
        (FileTypeCopyHandlers (posix user)) [''src'', ''l''] [''dst'']
        (file_info ''l'' (Link (owned 0x1FF) ''/etc/hosts'')) disk
     = Some (Some (UnsupportedFileTypeError (ModeSymlink OR 0x1FF) [''src'', ''l'']),
             put [''dst''] (Link (new_attrs user 0x1FF) ''/etc/hosts'') disk)"
proof -
  let ?info = "file_info ''l'' (Link (owned 0x1FF) ''/etc/hosts'')"
  let ?s' = "put [''dst''] (Link (new_attrs user 0x1FF) ''/etc/hosts'') disk"
  have h1: "\<not> IsRegular (Mode ?info)" by code_simp
  have h2: "\<not> IsDir ?info" by code_simp
  have h3: "Mode ?info AND ModeSymlink \<noteq> 0" by code_simp
  have h4: "lcopy (posix user) [''src'', ''l''] [''dst''] ?info disk = (None, ?s')"
    by code_simp
  show ?thesis
    using copy_restore_by_branch [of ?info "posix user" "[''src'', ''l'']" "[''dst'']" disk ?s'
        0 "default_Flags\<lparr>PreserveTime := True\<rparr>" "FileTypeCopyHandlers (posix user)"]
      h1 h2 h3 h4
    by (simp add: file_info_def owned_def)
qed

section \<open>The walk over a directory's contents\<close>

lemma dcopy_loop_append:
  "dcopy_loop n os fl hs srcdir destdir (pre @ rest) s =
     (case dcopy_loop n os fl hs srcdir destdir pre s of
        Some (None, s') \<Rightarrow> dcopy_loop n os fl hs srcdir destdir rest s'
      | r \<Rightarrow> r)"
proof (induction pre arbitrary: s)
  case Nil
  show ?case by simp
next
  case (Cons c pre)
  show ?case
    by (simp add: Cons.IH Let_def split: option.splits prod.splits)
qed

lemma dcopy_loop_child_error:
  assumes "dcopy_loop n os fl hs srcdir destdir pre s = Some (None, s1)"
    and "copy n os fl hs (filepath_Join srcdir (Name c)) (filepath_Join destdir (Name c)) c s1
           = Some (Some err, s2)"
  shows "dcopy_loop n os fl hs srcdir destdir (pre @ c # post) s =
           (if is_UnsupportedFileTypeError err \<and> IgnoreUnsupportedFileTypes fl
            then dcopy_loop n os fl hs srcdir destdir post s2
            else Some (Some err, s2))"
  using assms by (simp add: dcopy_loop_append Let_def)

lemma dcopy_listed:
  assumes "MkdirAll os destdir tmpPermissionForDirectory s = (None, s0)"
    and "ReadDir os srcdir s0 = (Inr contents, s0')"
  shows "dcopy (Suc n) os fl hs srcdir destdir info s =
           (case dcopy_loop n os fl hs srcdir destdir contents s0' of
              None \<Rightarrow> None
            | Some (r, s3) \<Rightarrow> Some (r, snd (Chmod os destdir (Mode info) s3)))"
  using assms by (simp add: Let_def)

text \<open>
  C8. The walk \<open>dcopy\<close> has made the destination directory and listed the source as
  \<open>pre @ c # post\<close>; it has come through the children \<open>pre\<close> without returning, and the
  copy of the next child \<open>c\<close> ends with the error \<open>err\<close> in the state \<open>s2\<close>. Then the
  walk goes on with the remaining children \<open>post\<close> from \<open>s2\<close> exactly when \<open>err\<close> is an
  unsupported-type error and the ignore flag is set. Otherwise it returns \<open>err\<close> at once:
  no child of \<open>post\<close> is attempted, and the state it returns in is \<open>s2\<close>, with all that
  was done for the earlier children, after the deferred \<open>Chmod\<close> of the destination
  directory alone.
\<close>

theorem dcopy_walk_child_error:
  assumes "MkdirAll os destdir tmpPermissionForDirectory s = (None, s0)"
    and "ReadDir os srcdir s0 = (Inr (pre @ c # post), s0')"
    and "dcopy_loop n os fl hs srcdir destdir pre s0' = Some (None, s1)"
    and "copy n os fl hs (filepath_Join srcdir (Name c)) (filepath_Join destdir (Name c)) c s1
           = Some (Some err, s2)"
  shows "dcopy (Suc n) os fl hs srcdir destdir info s =
           (if is_UnsupportedFileTypeError err \<and> IgnoreUnsupportedFileTypes fl
            then (case dcopy_loop n os fl hs srcdir destdir post s2 of
                    None \<Rightarrow> None
                  | Some (r, s3) \<Rightarrow> Some (r, snd (Chmod os destdir (Mode info) s3)))
            else Some (Some err, snd (Chmod os destdir (Mode info) s2)))"
proof -
  have "dcopy_loop n os fl hs srcdir destdir (pre @ c # post) s0' =
          (if is_UnsupportedFileTypeError err \<and> IgnoreUnsupportedFileTypes fl
           then dcopy_loop n os fl hs srcdir destdir post s2
           else Some (Some err, s2))"
    using assms(3,4) by (rule dcopy_loop_child_error)
  then show ?thesis
    by (simp add: assms(1,2) Let_def)
qed

theorem dcopy_walk_child_error_witness:
  "dcopy (Suc 0) (posix user) default_Flags (FileTypeCopyHandlers (posix user))
      [''src''] [''dst''] (file_info ''src'' (Directory (owned 0x140) [])) disk
     = Some (Some (UnsupportedFileTypeError (ModeSymlink OR 0x1FF) [''src'', ''l'']),
             put [''dst''] (Directory (new_attrs user 0x140)
               [(''a'', File (new_attrs user 0x180) [1, 2, 3]),
                (''l'', Link (new_attrs user 0x1FF) ''/etc/hosts'')]) disk)
   \<and> dcopy (Suc 0) (posix user) (default_Flags\<lparr>IgnoreUnsupportedFileTypes := True\<rparr>)
        (FileTypeCopyHandlers (posix user))
        [''src''] [''dst''] (file_info ''src'' (Directory (owned 0x140) [])) disk
     = Some (None,
             put [''dst''] (Directory (new_attrs user 0x140)
               [(''a'', File (new_attrs user 0x180) [1, 2, 3]),
                (''l'', Link (new_attrs user 0x1FF) ''/etc/hosts''),
                (''z'', File (new_attrs user 0x1A4) [9])]) disk)"
proof -
  let ?os = "posix user"
  let ?H = "FileTypeCopyHandlers (posix user)"
  let ?ign = "default_Flags\<lparr>IgnoreUnsupportedFileTypes := True\<rparr>"
  let ?info = "file_info ''src'' (Directory (owned 0x140) [])"
  let ?a = "file_info ''a'' (File (owned 0x180) [1, 2, 3])"
  let ?l = "file_info ''l'' (Link (owned 0x1FF) ''/etc/hosts'')"
  let ?p = "file_info ''p'' (Special NamedPipe (owned 0x1A4))"
  let ?z = "file_info ''z'' (File (owned 0x1A4) [9])"
  let ?s0 = "put [''dst''] (Directory (new_attrs user 0x1ED) []) disk"
  let ?s1 = "put [''dst''] (Directory (new_attrs user 0x1ED)
               [(''a'', File (new_attrs user 0x180) [1, 2, 3])]) disk"
  let ?s2 = "put [''dst''] (Directory (new_attrs user 0x1ED)
               [(''a'', File (new_attrs user 0x180) [1, 2, 3]),
                (''l'', Link (new_attrs user 0x1FF) ''/etc/hosts'')]) disk"
  let ?s3 = "put [''dst''] (Directory (new_attrs user 0x1ED)
               [(''a'', File (new_attrs user 0x180) [1, 2, 3]),
                (''l'', Link (new_attrs user 0x1FF) ''/etc/hosts''),
                (''z'', File (new_attrs user 0x1A4) [9])]) disk"
  let ?err = "UnsupportedFileTypeError (ModeSymlink OR 0x1FF) [''src'', ''l'']"
  have mk: "MkdirAll ?os [''dst''] tmpPermissionForDirectory disk = (None, ?s0)"
    by code_simp
  have ls: "ReadDir ?os [''src''] ?s0 = (Inr ([?a] @ ?l # [?p, ?z]), ?s0)"
    by code_simp
  have pre: "dcopy_loop 0 ?os default_Flags ?H [''src''] [''dst''] [?a] ?s0 = Some (None, ?s1)"
    by code_simp
  have child: "copy 0 ?os default_Flags ?H (filepath_Join [''src''] (Name ?l))
                 (filepath_Join [''dst''] (Name ?l)) ?l ?s1 = Some (Some ?err, ?s2)"
    by code_simp
  have pre': "dcopy_loop 0 ?os ?ign ?H [''src''] [''dst''] [?a] ?s0 = Some (None, ?s1)"
    by code_simp
  have child': "copy 0 ?os ?ign ?H (filepath_Join [''src''] (Name ?l))
                  (filepath_Join [''dst''] (Name ?l)) ?l ?s1 = Some (Some ?err, ?s2)"
    by code_simp
  have post: "dcopy_loop 0 ?os ?ign ?H [''src''] [''dst''] [?p, ?z] ?s2 = Some (None, ?s3)"
    by code_simp
  have ch2: "snd (Chmod ?os [''dst''] (Mode ?info) ?s2)
               = put [''dst''] (Directory (new_attrs user 0x140)
                   [(''a'', File (new_attrs user 0x180) [1, 2, 3]),
                    (''l'', Link (new_attrs user 0x1FF) ''/etc/hosts'')]) disk"
    by code_simp
  have ch3: "snd (Chmod ?os [''dst''] (Mode ?info) ?s3)
               = put [''dst''] (Directory (new_attrs user 0x140)
                   [(''a'', File (new_attrs user 0x180) [1, 2, 3]),
                    (''l'', Link (new_attrs user 0x1FF) ''/etc/hosts''),
                    (''z'', File (new_attrs user 0x1A4) [9])]) disk"
    by code_simp
  have un: "is_UnsupportedFileTypeError ?err = True"
    by simp
  have abort: "IgnoreUnsupportedFileTypes default_Flags = False"
    by (simp add: default_Flags_def)
  have swallow: "IgnoreUnsupportedFileTypes ?ign = True"
    by simp
  show ?thesis
    using dcopy_walk_child_error [OF mk ls pre child, of ?info]
      dcopy_walk_child_error [OF mk ls pre' child', of ?info]
    by (simp only: un abort swallow if_True if_False post ch2 ch3 option.case prod.case
        simp_thms)
qed

section \<open>The attribute restoration\<close>

text \<open>
  C9. The three steps run one after the other on the state the step before left,
  whether or not that step failed: \<open>s1\<close>, \<open>s2\<close> and \<open>s3\<close> are the states after the
  permission, owner and time steps, each taken when its flag is set (the owner and time
  steps fail without a system call when the platform data is missing). \<open>f1\<close>, \<open>f2\<close> and
  \<open>f3\<close> are the failures of the three steps, each wrapping the error it was caused by.
  The result is \<open>nil\<close> exactly when no failure was collected, and otherwise one
  \<open>FileCopyTasksError\<close> with the destination path and the failures in order.
\<close>

theorem restore_attempts_every_step:
  fixes os :: "'s OS" and fl :: Flags and dest :: path and info :: FileInfo and s :: 's
  defines "r1 \<equiv> Chmod os dest (Perm (Mode info)) s"
  defines "s1 \<equiv> if PreservePermissions fl then snd r1 else s"
  defines "f1 \<equiv>
     if PreservePermissions fl then
       (case fst r1 of
          None \<Rightarrow> []
        | Some e \<Rightarrow> [Errorf (could_not_restore_permissions (Perm (Mode info)) dest) (Some e)])
     else []"
  defines "r2 \<equiv> \<lambda>st. Lchown os dest (Uid st) (Gid st) s1"
  defines "s2 \<equiv>
     if PreserveOwner fl then (case Sys info of Some st \<Rightarrow> snd (r2 st) | None \<Rightarrow> s1) else s1"
  defines "f2 \<equiv>
     if PreserveOwner fl then
       (case Sys info of
          Some st \<Rightarrow>
            (case fst (r2 st) of
               None \<Rightarrow> []
             | Some e \<Rightarrow> [Errorf (could_not_restore_owner (Uid st) (Gid st) dest) (Some e)])
        | None \<Rightarrow>
            [Errorf (could_not_restore_owner_nostat dest)
               (if f1 = [] then None else Some (last f1))])
     else []"
  defines "r3 \<equiv> \<lambda>st. Chtimes os dest (Atim st) (ModTime info) s2"
  defines "s3 \<equiv>
     if PreserveTime fl then (case Sys info of Some st \<Rightarrow> snd (r3 st) | None \<Rightarrow> s2) else s2"
  defines "f3 \<equiv>
     if PreserveTime fl then
       (case Sys info of
          Some st \<Rightarrow>
            (case fst (r3 st) of
               None \<Rightarrow> []
             | Some e \<Rightarrow> [Errorf (could_not_restore_timestamp (ModTime info) dest) (Some e)])
        | None \<Rightarrow>
            [Errorf (could_not_restore_timestamp_nostat dest)
               (if f1 @ f2 = [] then None else Some (last (f1 @ f2)))])
     else []"
  shows "restore os fl dest info s =
           (if f1 @ f2 @ f3 = [] then None else Some (FileCopyTasksError dest (f1 @ f2 @ f3)),
            s3)"
proof -
  let ?e1 = "if f1 = [] then None else Some (last f1)"
  let ?e2 = "if PreserveOwner fl then (if f2 = [] then None else Some (last f2)) else ?e1"
  let ?e3 = "if PreserveTime fl then (if f3 = [] then None else Some (last f3)) else ?e2"
  let ?stat = "if PreserveOwner fl \<or> PreserveTime fl then Sys info else None"
  have st1: "restore_permissions os fl dest info (None, [], s) = (?e1, f1, s1)"
    unfolding restore_permissions_def f1_def s1_def r1_def
    by (simp add: Let_def split: prod.splits option.splits)
  have st2: "restore_owner os fl dest ?stat (?e1, f1, s1) = (?e2, f1 @ f2, s2)"
    unfolding restore_owner_def f2_def s2_def r2_def
    by (simp add: Let_def split: prod.splits option.splits)
  have st3: "restore_time os fl dest info ?stat (?e2, f1 @ f2, s2) = (?e3, (f1 @ f2) @ f3, s3)"
  proof (cases "Sys info")
    case None
    have f2: "f2 = (if PreserveOwner fl
                    then [Errorf (could_not_restore_owner_nostat dest)
                            (if f1 = [] then None else Some (last f1))]
                    else [])"
      by (simp add: f2_def None)
    show ?thesis
      unfolding restore_time_def f3_def s3_def r3_def
      by (simp add: None f2 Let_def)
  next
    case (Some st)
    show ?thesis
      unfolding restore_time_def f3_def s3_def r3_def
      by (simp add: Some Let_def split: prod.splits option.splits)
  qed
  show ?thesis
    unfolding restore_def Let_def st1 st2 st3 by simp
qed

theorem restore_attempts_every_step_witness:
  "restore (posix user)
      \<lparr>IgnoreUnsupportedFileTypes = False, PreservePermissions = True,
        PreserveOwner = True, PreserveTime = True\<rparr>
      [''none''] (file_info ''a'' (File (owned 0x180) [1, 2, 3])) disk
   = (Some (FileCopyTasksError [''none'']
        [Errorf (could_not_restore_permissions 0x180 [''none''])
           (Some (PathError ''chmod'' [''none''] ENOENT)),
         Errorf (could_not_restore_owner 1000 1000 [''none''])
           (Some (PathError ''lchown'' [''none''] ENOENT)),
         Errorf (could_not_restore_timestamp 2 [''none''])
           (Some (PathError ''chtimes'' [''none''] ENOENT))]),
      disk)"
  by (subst restore_attempts_every_step) code_simp

section \<open>Mode bits\<close>

lemma bit_ModeDir: "bit ModeDir n \<longleftrightarrow> n = 31"
  unfolding ModeDir_def bit_push_bit_iff by (auto simp add: bit_1_iff)

lemma bit_ModeSymlink: "bit ModeSymlink n \<longleftrightarrow> n = 27"
  unfolding ModeSymlink_def bit_push_bit_iff by (auto simp add: bit_1_iff)

lemma bit_ModeDevice: "bit ModeDevice n \<longleftrightarrow> n = 26"
  unfolding ModeDevice_def bit_push_bit_iff by (auto simp add: bit_1_iff)

lemma bit_ModeNamedPipe: "bit ModeNamedPipe n \<longleftrightarrow> n = 25"
  unfolding ModeNamedPipe_def bit_push_bit_iff by (auto simp add: bit_1_iff)

lemma bit_ModeSocket: "bit ModeSocket n \<longleftrightarrow> n = 24"
  unfolding ModeSocket_def bit_push_bit_iff by (auto simp add: bit_1_iff)

lemma bit_ModeCharDevice: "bit ModeCharDevice n \<longleftrightarrow> n = 21"
  unfolding ModeCharDevice_def bit_push_bit_iff by (auto simp add: bit_1_iff)

lemma bit_ModeIrregular: "bit ModeIrregular n \<longleftrightarrow> n = 19"
  unfolding ModeIrregular_def bit_push_bit_iff by (auto simp add: bit_1_iff)

lemmas bit_Mode =
  bit_ModeDir bit_ModeSymlink bit_ModeDevice bit_ModeNamedPipe bit_ModeSocket
  bit_ModeCharDevice bit_ModeIrregular

lemma bit_ModeType:
  "bit ModeType n \<longleftrightarrow> n = 31 \<or> n = 27 \<or> n = 25 \<or> n = 24 \<or> n = 26 \<or> n = 21 \<or> n = 19"
  unfolding ModeType_def bit_or_iff bit_Mode by (rule refl)

lemma bit_perm_bits: "bit (ucast (p :: 9 word) :: FileMode) n \<longleftrightarrow> n < 9 \<and> bit p n"
  by (auto simp add: bit_ucast_iff dest: bit_imp_le_length)

lemma word_neq_0_bitI: "bit (w :: FileMode) n \<Longrightarrow> w \<noteq> 0"
  by auto

lemma IsRegular_perm_bits: "IsRegular (ucast (p :: 9 word))"
  unfolding IsRegular_def
  by (rule bit_word_eqI) (simp add: bit_and_iff bit_perm_bits bit_ModeType)

lemma not_IsRegular_ModeDir: "\<not> IsRegular (ModeDir OR ucast (p :: 9 word))"
  unfolding IsRegular_def
  by (rule word_neq_0_bitI [of _ 31]) (simp add: bit_and_iff bit_or_iff bit_ModeType bit_ModeDir)

lemma not_IsRegular_ModeSymlink: "\<not> IsRegular (ModeSymlink OR ucast (p :: 9 word))"
  unfolding IsRegular_def
  by (rule word_neq_0_bitI [of _ 27])
    (simp add: bit_and_iff bit_or_iff bit_ModeType bit_ModeSymlink)

lemma type_bits_bit: "\<exists>n. bit (type_bits k) n \<and> bit ModeType n \<and> n \<noteq> 31 \<and> n \<noteq> 27"
  by (cases k) (auto simp add: bit_or_iff bit_Mode bit_ModeType)

lemma type_bits_only: "bit (type_bits k) n \<Longrightarrow> n \<noteq> 31 \<and> n \<noteq> 27 \<and> 9 \<le> n"
  by (cases k) (auto simp add: bit_or_iff bit_Mode)

lemma not_IsRegular_type_bits: "\<not> IsRegular (type_bits k OR ucast (p :: 9 word))"
proof -
  obtain n where "bit (type_bits k) n" "bit ModeType n"
    using type_bits_bit by blast
  then have "bit ((type_bits k OR ucast p) AND ModeType) n"
    by (simp add: bit_and_iff bit_or_iff)
  then show ?thesis
    unfolding IsRegular_def by (rule word_neq_0_bitI)
qed

lemma and_ModeDir_ModeDir: "(ModeDir OR ucast (p :: 9 word)) AND ModeDir \<noteq> 0"
  by (rule word_neq_0_bitI [of _ 31]) (simp add: bit_and_iff bit_or_iff bit_ModeDir)

lemma and_perm_ModeDir: "ucast (p :: 9 word) AND ModeDir = 0"
  by (rule bit_word_eqI) (simp add: bit_and_iff bit_perm_bits bit_ModeDir)

lemma and_ModeSymlink_ModeDir: "(ModeSymlink OR ucast (p :: 9 word)) AND ModeDir = 0"
  by (rule bit_word_eqI)
    (auto simp add: bit_and_iff bit_or_iff bit_perm_bits bit_ModeDir bit_ModeSymlink)

lemma and_type_bits_ModeDir: "(type_bits k OR ucast (p :: 9 word)) AND ModeDir = 0"
  by (rule bit_word_eqI)
    (auto simp add: bit_and_iff bit_or_iff bit_perm_bits bit_ModeDir dest: type_bits_only)

lemma and_ModeSymlink_ModeSymlink: "(ModeSymlink OR ucast (p :: 9 word)) AND ModeSymlink \<noteq> 0"
  by (rule word_neq_0_bitI [of _ 27]) (simp add: bit_and_iff bit_or_iff bit_ModeSymlink)

lemma and_type_bits_ModeSymlink: "(type_bits k OR ucast (p :: 9 word)) AND ModeSymlink = 0"
  by (rule bit_word_eqI)
    (auto simp add: bit_and_iff bit_or_iff bit_perm_bits bit_ModeSymlink dest: type_bits_only)

lemma perm_of_perm_bits: "(ucast (ucast (p :: 9 word) :: FileMode) :: 9 word) = p"
  by (rule bit_word_eqI) (simp add: bit_ucast_iff)

lemma perm_of_ModeDir: "(ucast (ModeDir OR ucast (p :: 9 word)) :: 9 word) = p"
  by (rule bit_word_eqI) (auto simp add: bit_ucast_iff bit_or_iff bit_ModeDir)

lemma bit_ModePerm: "bit ModePerm n \<longleftrightarrow> n < 9"
proof -
  have eq: "ModePerm = mask 9" by (simp add: ModePerm_def mask_eq_exp_minus_1)
  show ?thesis unfolding eq bit_mask_iff by (auto simp add: possible_bit_word)
qed

lemma perm_of_Perm: "(ucast (Perm m) :: 9 word) = ucast m"
  unfolding Perm_def
  by (rule bit_word_eqI) (auto simp add: bit_ucast_iff bit_and_iff bit_ModePerm)

lemma ModeSymlink_neq_0: "ModeSymlink \<noteq> 0"
  by (rule word_neq_0_bitI [of _ 27]) (simp add: bit_ModeSymlink)

lemma ModeDir_neq_0: "ModeDir \<noteq> 0"
  by (rule word_neq_0_bitI [of _ 31]) (simp add: bit_ModeDir)

section \<open>Paths in the tree\<close>

lemma map_of_update_entry: "map_of (AList.update x v es) = (map_of es)(x \<mapsto> v)"
  by (rule update_conv')

lemma update_new_entry: "map_of es x = None \<Longrightarrow> AList.update x v es = es @ [(x, v)]"
  by (induction es) (auto split: if_splits)

lemma update_last_entry:
  "map_of es x = None \<Longrightarrow> AList.update x v (es @ [(x, w)]) = es @ [(x, v)]"
  by (induction es) (auto split: if_splits)

lemma resolve_append:
  "resolve pr fs (p @ q) = (case resolve pr fs p of Inl e \<Rightarrow> Inl e | Inr n \<Rightarrow> resolve pr n q)"
proof (induction p arbitrary: fs)
  case Nil
  show ?case by simp
next
  case (Cons x p)
  show ?case
    by (cases fs) (simp_all add: Cons.IH split: option.splits)
qed

lemma resolve_put_below:
  "resolve pr fs p = Inr d \<Longrightarrow> resolve pr (put p d' fs) (p @ q) = resolve pr d' q"
proof (induction p arbitrary: fs)
  case Nil
  show ?case by simp
next
  case (Cons x p)
  then show ?case
    by (cases fs) (auto simp add: map_of_update_entry split: option.splits if_splits)
qed

lemma resolve_put_same:
  "resolve pr fs p = Inr d \<Longrightarrow> resolve pr (put p d' fs) p = Inr d'"
  using resolve_put_below [of pr fs p d d' "[]"] by simp

lemma put_append:
  "resolve pr fs p = Inr d \<Longrightarrow> put (p @ q) n fs = put p (put q n d) fs"
proof (induction p arbitrary: fs)
  case Nil
  then show ?case by simp
next
  case (Cons x p)
  then show ?case
    by (cases fs) (auto split: option.splits if_splits)
qed

lemma put_put: "put p n2 (put p n1 fs) = put p n2 fs"
proof (induction p arbitrary: fs)
  case Nil
  show ?case by simp
next
  case (Cons x p)
  show ?case
  proof (cases fs)
    case (Directory a es)
    then show ?thesis
      by (auto simp add: map_of_update_entry Cons.IH update_new_entry update_last_entry
          split: option.splits)
  qed simp_all
qed

lemma resolve_put_other:
  "\<not> prefix p q \<Longrightarrow> \<not> prefix q p \<Longrightarrow> resolve pr (put p n fs) q = resolve pr fs q"
proof (induction p arbitrary: q fs)
  case Nil
  then show ?case by simp
next
  case (Cons x p)
  then obtain y q' where q: "q = y # q'" by (cases q) auto
  show ?case
  proof (cases fs)
    case (Directory a es)
    show ?thesis
    proof (cases "y = x")
      case True
      with Cons.prems q have "\<not> prefix p q'" "\<not> prefix q' p" by auto
      then have "resolve pr (put p n c) q' = resolve pr c q'" for c
        by (rule Cons.IH)
      moreover from \<open>\<not> prefix p q'\<close> have "p \<noteq> []" by auto
      ultimately show ?thesis
        using True q Directory by (auto simp add: map_of_update_entry split: option.splits)
    next
      case False
      then show ?thesis
        using q Directory by (auto simp add: map_of_update_entry split: option.splits)
    qed
  qed (simp_all add: q)
qed

lemma resolve_node_at: "resolve pr fs p = Inr n \<Longrightarrow> node_at fs p = Some n"
proof (induction p arbitrary: fs)
  case Nil
  then show ?case by simp
next
  case (Cons x p)
  then show ?case
    by (cases fs) (auto split: if_splits option.splits)
qed

section \<open>Vacant destinations\<close>

lemma vacantD:
  assumes "vacant pr fs p"
  obtains a es where "p \<noteq> []" and "resolve pr fs (butlast p) = Inr (Directory a es)"
    and "may pr X a" and "may pr W a" and "map_of es (last p) = None"
  using assms unfolding vacant_def
  by (auto split: sum.splits node.splits)

lemma resolve_vacant: "vacant pr fs p \<Longrightarrow> resolve pr fs p = Inl ENOENT"
proof (erule vacantD)
  fix a es
  assume "p \<noteq> []" and r: "resolve pr fs (butlast p) = Inr (Directory a es)"
    and "may pr X a" and "map_of es (last p) = None"
  have "resolve pr fs (butlast p @ [last p])
      = (case resolve pr fs (butlast p) of Inl e \<Rightarrow> Inl e | Inr n \<Rightarrow> resolve pr n [last p])"
    by (rule resolve_append)
  also have "\<dots> = Inl ENOENT"
    using r \<open>may pr X a\<close> \<open>map_of es (last p) = None\<close> by simp
  finally show ?thesis using \<open>p \<noteq> []\<close> by simp
qed

lemma put_vacant:
  assumes "resolve pr fs (butlast p) = Inr (Directory a es)" and "p \<noteq> []"
    and "map_of es (last p) = None"
  shows "put p n fs = put (butlast p) (Directory a (es @ [(last p, n)])) fs"
proof -
  have "put (butlast p @ [last p]) n fs = put (butlast p) (put [last p] n (Directory a es)) fs"
    using assms(1) by (rule put_append)
  with assms(2,3) show ?thesis by (simp add: update_new_entry)
qed

lemma resolve_put_vacant:
  assumes "vacant pr fs p"
  shows "resolve pr (put p n fs) (p @ q) = resolve pr n q"
  using assms
proof (rule vacantD)
  fix a es
  assume p: "p \<noteq> []" and r: "resolve pr fs (butlast p) = Inr (Directory a es)"
    and x: "may pr X a" and free: "map_of es (last p) = None"
  have "resolve pr (put p n fs) (butlast p @ (last p # q))
      = resolve pr (Directory a (es @ [(last p, n)])) (last p # q)"
    unfolding put_vacant [OF r p free] using r by (rule resolve_put_below)
  also have "\<dots> = resolve pr n q"
    using x free by (simp add: map_add_def)
  finally show ?thesis
    using p by (metis append.assoc append_Cons append_Nil append_butlast_last_id)
qed

lemma resolve_put_vacant_same: "vacant pr fs p \<Longrightarrow> resolve pr (put p n fs) p = Inr n"
  using resolve_put_vacant [of pr fs p n "[]"] by simp

lemma not_prefix_vacant:
  assumes "vacant pr fs dest" and "resolve pr fs src = Inr n"
  shows "\<not> prefix dest src"
proof
  assume "prefix dest src"
  then obtain r where "src = dest @ r" by (auto simp add: prefix_def)
  with assms(2) resolve_vacant [OF assms(1)] show False
    by (simp add: resolve_append)
qed

lemma put_child:
  assumes "vacant pr fs dest" and "map_of ds name = None"
  shows "put (dest @ [name]) c (put dest (Directory d ds) fs)
           = put dest (Directory d (ds @ [(name, c)])) fs"
proof -
  have "resolve pr (put dest (Directory d ds) fs) dest = Inr (Directory d ds)"
    using assms(1) by (rule resolve_put_vacant_same)
  then have "put (dest @ [name]) c (put dest (Directory d ds) fs)
      = put dest (put [name] c (Directory d ds)) (put dest (Directory d ds) fs)"
    by (rule put_append)
  with assms(2) show ?thesis by (simp add: update_new_entry put_put)
qed

lemma add_entry_vacant: "vacant pr fs p \<Longrightarrow> add_entry pr mk p new fs = (None, put p new fs)"
  by (erule vacantD) (simp add: add_entry_def)

section \<open>The calls that succeed\<close>

lemma posix_simps [simp]:
  "Lstat (posix pr) = px_Lstat pr" "MkdirAll (posix pr) = px_MkdirAll pr"
  "Create (posix pr) = px_Create pr" "Open (posix pr) = px_Open pr"
  "Close (posix pr) = (\<lambda>p fs. fs)" "io_Copy (posix pr) = px_io_Copy"
  "Chmod (posix pr) = px_Chmod pr" "ReadDir (posix pr) = px_ReadDir pr"
  "Readlink (posix pr) = px_Readlink pr" "Symlink (posix pr) = px_Symlink pr"
  "Lchown (posix pr) = px_Lchown pr" "Chtimes (posix pr) = px_Chtimes pr"
  by (simp_all add: posix_def)

lemma may_new_attrs:
  "may pr acc (new_attrs pr p) = (euid pr = 0 \<or> bit p (6 + (case acc of R \<Rightarrow> 2 | W \<Rightarrow> 1 | X \<Rightarrow> 0)))"
  by (simp add: may_def new_attrs_def)

lemma owns_new_attrs [simp]: "owns pr (new_attrs pr p)"
  by (simp add: owns_def new_attrs_def)

lemma new_attrs_perm [simp]:
  "(new_attrs pr p)\<lparr>perm := q\<rparr> = new_attrs pr q" "perm (new_attrs pr p) = p"
  by (simp_all add: new_attrs_def)

lemma px_MkdirAll_directory:
  "resolve pr fs p = Inr (Directory a es) \<Longrightarrow> px_MkdirAll pr p m fs = (None, fs)"
  by (subst px_MkdirAll.simps) simp

lemma px_MkdirAll_vacant:
  assumes "vacant pr fs p"
  shows "px_MkdirAll pr p m fs = (None, put p (Directory (new_attrs pr (ucast m)) []) fs)"
  using assms
proof (rule vacantD)
  fix a es
  assume p: "p \<noteq> []" and r: "resolve pr fs (butlast p) = Inr (Directory a es)"
  have "px_MkdirAll pr (butlast p) m fs = (None, fs)"
    using r by (rule px_MkdirAll_directory)
  then show ?thesis
    using p resolve_vacant [OF assms] add_entry_vacant [OF assms]
    by (subst px_MkdirAll.simps) (simp add: px_Mkdir_def)
qed

lemma px_Create_vacant:
  "vacant pr fs p \<Longrightarrow> px_Create pr p fs = (None, put p (File (new_attrs pr 0x1B6) []) fs)"
  by (simp add: px_Create_def resolve_vacant add_entry_vacant)

lemma px_Symlink_vacant:
  "vacant pr fs p \<Longrightarrow> px_Symlink pr t p fs = (None, put p (Link (new_attrs pr 0x1FF) t) fs)"
  by (simp add: px_Symlink_def add_entry_vacant)

lemma px_Chmod_own:
  "resolve pr fs p = Inr n \<Longrightarrow> \<not> is_Link n \<Longrightarrow> owns pr (node_attrs n) \<Longrightarrow>
   px_Chmod pr p m fs = (None, put p (set_perm (ucast m) n) fs)"
  by (simp add: px_Chmod_def)

lemma px_Open_file:
  "resolve pr fs p = Inr (File a bs) \<Longrightarrow> may pr R a \<Longrightarrow> px_Open pr p fs = (None, fs)"
  by (simp add: px_Open_def)

lemma px_io_Copy_files:
  "resolve pr fs src = Inr (File b bs) \<Longrightarrow> resolve pr fs dst = Inr (File a old) \<Longrightarrow>
   px_io_Copy dst src fs = (None, put dst (File a bs) fs)"
  by (simp add: px_io_Copy_def resolve_node_at)

lemma px_Readlink_link:
  "resolve pr fs p = Inr (Link a t) \<Longrightarrow> px_Readlink pr p fs = (Inr t, fs)"
  by (simp add: px_Readlink_def)

lemma sort_infos:
  assumes "sorted (map fst es)"
  shows "sort_key Name (map (\<lambda>(name, c). file_info name c) es)
           = map (\<lambda>(name, c). file_info name c) es"
proof -
  have "map Name (map (\<lambda>(name, c). file_info name c) es) = map fst es"
    by (induction es) (auto simp add: file_info_def)
  with assms have "sorted (map Name (map (\<lambda>(name, c). file_info name c) es))"
    by (simp only:)
  then show ?thesis by (rule sort_key_id_if_sorted)
qed

lemma px_ReadDir_directory:
  assumes "resolve pr fs p = Inr (Directory a es)" and "may pr R a" and "may pr X a"
    and "sorted (map fst es)"
  shows "px_ReadDir pr p fs = (Inr (map (\<lambda>(name, c). file_info name c) es), fs)"
proof (cases es)
  case Nil
  with assms show ?thesis by (simp add: px_ReadDir_def)
next
  case (Cons e es')
  have "px_ReadDir pr p fs
      = (Inr (sort_key Name (map (\<lambda>(name, c). file_info name c) es)), fs)"
    using assms(1-3) Cons by (simp add: px_ReadDir_def split: prod.splits del: sort_key_simps)
  then show ?thesis
    by (simp only: sort_infos [OF assms(4)])
qed

section \<open>A regular file, a link\<close>

lemma fcopy_posix:
  assumes src: "resolve pr fs src = Inr (File b bs)" and r: "may pr R b"
    and dest: "vacant pr fs dest" and np: "\<not> prefix src dest"
  shows "fcopy (posix pr) src dest info fs
           = (None, put dest (File (new_attrs pr (ucast (Mode info))) bs) fs)"
proof -
  let ?F0 = "File (new_attrs pr 0x1B6) []"
  let ?F1 = "File (new_attrs pr (ucast (Mode info))) []"
  let ?fs1 = "put dest ?F0 fs"
  let ?fs2 = "put dest ?F1 fs"
  from dest obtain a es where "resolve pr fs (butlast dest) = Inr (Directory a es)"
    by (rule vacantD)
  then have mk: "px_MkdirAll pr (filepath_Dir dest) ModePerm fs = (None, fs)"
    unfolding filepath_Dir_def by (rule px_MkdirAll_directory)
  have cr: "px_Create pr dest fs = (None, ?fs1)"
    using dest by (rule px_Create_vacant)
  have "px_Chmod pr dest (Mode info) ?fs1 = (None, put dest (set_perm (ucast (Mode info)) ?F0) ?fs1)"
    by (rule px_Chmod_own) (simp_all add: resolve_put_vacant_same [OF dest])
  then have ch: "px_Chmod pr dest (Mode info) ?fs1 = (None, ?fs2)"
    by (simp add: put_put)
  have other: "resolve pr ?fs2 src = Inr (File b bs)"
    using not_prefix_vacant [OF dest src] np src by (simp add: resolve_put_other)
  have op: "px_Open pr src ?fs2 = (None, ?fs2)"
    using other r by (rule px_Open_file)
  have "px_io_Copy dest src ?fs2
          = (None, put dest (File (new_attrs pr (ucast (Mode info))) bs) ?fs2)"
    using other resolve_put_vacant_same [OF dest] by (rule px_io_Copy_files)
  then have io: "px_io_Copy dest src ?fs2
          = (None, put dest (File (new_attrs pr (ucast (Mode info))) bs) fs)"
    by (simp add: put_put)
  show ?thesis
    by (simp add: fcopy_def mk cr ch op io)
qed

lemma lcopy_posix:
  assumes "resolve pr fs src = Inr (Link a t)" and "vacant pr fs dest"
  shows "lcopy (posix pr) src dest info fs = (None, put dest (Link (new_attrs pr 0x1FF) t) fs)"
  using assms by (simp add: lcopy_def px_Readlink_link px_Symlink_vacant)

lemma restore_posix:
  assumes "\<not> PreserveOwner fl" and "\<not> PreserveTime fl"
    and "resolve pr fs dest = Inr n" and "\<not> is_Link n" and "owns pr (node_attrs n)"
  shows "restore (posix pr) fl dest info fs =
           (None, if PreservePermissions fl
                  then put dest (set_perm (ucast (Mode info)) n) fs else fs)"
  using assms
  by (simp add: restore_def restore_permissions_def restore_owner_def restore_time_def
      px_Chmod_own perm_of_Perm)


section \<open>Copying a tree\<close>

lemma keep_append: "keep (xs @ ys) = keep xs @ keep ys"
  by (induction xs rule: keep.induct) simp_all

lemma keep_keys: "(k, v) \<in> set (keep xs) \<Longrightarrow> (k, Some v) \<in> set xs"
  by (induction xs rule: keep.induct) auto

lemma map_of_keep_None:
  assumes "name \<notin> fst ` set es"
  shows "map_of (keep (map (map_prod id f) es)) name = None"
proof -
  have "name \<notin> fst ` set (keep (map (map_prod id f) es))"
    using assms by (force dest: keep_keys)
  then show ?thesis by (simp add: map_of_eq_None_iff)
qed

lemma img_Directory:
  "img pr (Directory a es) = Some (Directory (new_attrs pr (perm a)) (img_entries pr es))"
  by (simp add: img_entries_def)

lemma img_entries_Nil [simp]: "img_entries pr [] = []"
  by (simp add: img_entries_def)

lemma img_entries_snoc:
  "img_entries pr (es @ [(name, c)])
     = img_entries pr es @ (case img pr c of None \<Rightarrow> [] | Some c' \<Rightarrow> [(name, c')])"
  by (cases "img pr c") (simp_all add: img_entries_def keep_append)

lemma map_of_img_entries_None:
  "name \<notin> fst ` set es \<Longrightarrow> map_of (img_entries pr es) name = None"
  unfolding img_entries_def by (rule map_of_keep_None)

lemma dcopy_loop_next:
  assumes "copy n os fl hs (filepath_Join srcdir (Name c)) (filepath_Join destdir (Name c)) c s
             = Some (r, s')"
    and "\<And>err. r = Some err \<Longrightarrow> is_UnsupportedFileTypeError err \<and> IgnoreUnsupportedFileTypes fl"
  shows "dcopy_loop n os fl hs srcdir destdir (c # cs) s
           = dcopy_loop n os fl hs srcdir destdir cs s'"
  using assms by (cases r) (simp_all add: Let_def)

lemma foldr_max_ge: "x \<in> set xs \<Longrightarrow> x \<le> foldr max xs (0::nat)"
  by (induction xs) auto

lemma depth_child: "(name, c) \<in> set es \<Longrightarrow> depth (Directory a es) \<le> Suc m \<Longrightarrow> depth c \<le> m"
  using foldr_max_ge [of "depth c" "map snd (map (map_prod id depth) es)"] by force

lemma plain_child: "plain (Directory a es) \<Longrightarrow> (name, c) \<in> set es \<Longrightarrow> plain c"
  by (force simp add: list_all_iff)

lemma readable_child: "readable pr (Directory a es) \<Longrightarrow> (name, c) \<in> set es \<Longrightarrow> readable pr c"
  by (force simp add: list_all_iff)

lemma Mode_file_info [simp]: "Mode (file_info name n) = node_mode n"
  by (simp add: file_info_def)

lemma Name_file_info [simp]: "Name (file_info name n) = name"
  by (simp add: file_info_def)

lemma dispatch_error_plain: "plain c \<Longrightarrow> dispatch_error c p = None"
  by (cases c) simp_all

lemma dispatch_error_unsupported:
  "dispatch_error c p = Some err \<Longrightarrow> is_UnsupportedFileTypeError err"
  by (cases c) auto

lemma copy_posix_file:
  assumes fl: "\<not> PreserveOwner fl" "\<not> PreserveTime fl"
    and src: "resolve pr fs src = Inr (File a bs)" and r: "may pr R a"
    and dest: "vacant pr fs dest" and np: "\<not> prefix src dest"
  shows "copy n (posix pr) fl hs src dest (file_info nm (File a bs)) fs
           = Some (None, put dest (File (new_attrs pr (perm a)) bs) fs)"
proof -
  let ?info = "file_info nm (File a bs)"
  let ?F = "File (new_attrs pr (perm a)) bs"
  have f: "fcopy (posix pr) src dest ?info fs = (None, put dest ?F fs)"
    using fcopy_posix [OF src r dest np, of ?info] by (simp add: perm_of_perm_bits)
  have "restore (posix pr) fl dest ?info (put dest ?F fs)
      = (None, if PreservePermissions fl
               then put dest (set_perm (ucast (Mode ?info)) ?F) (put dest ?F fs)
               else put dest ?F fs)"
    using fl by (rule restore_posix) (simp_all add: resolve_put_vacant_same [OF dest])
  then have "restore (posix pr) fl dest ?info (put dest ?F fs) = (None, put dest ?F fs)"
    by (simp add: put_put perm_of_perm_bits)
  with f show ?thesis
    by (simp add: copy_regular IsRegular_perm_bits)
qed

lemma copy_posix_link:
  assumes "resolve pr fs src = Inr (Link a t)" and "vacant pr fs dest"
  shows "copy n (posix pr) fl (FileTypeCopyHandlers (posix pr)) src dest
            (file_info nm (Link a t)) fs
           = Some (Some (UnsupportedFileTypeError (ModeSymlink OR ucast (perm a)) src),
                   put dest (Link (new_attrs pr 0x1FF) t) fs)"
  using lcopy_posix [OF assms]
  by (simp add: copy_other not_IsRegular_ModeSymlink IsDir_def and_ModeSymlink_ModeDir
      FileTypeCopyHandlers_def and_ModeSymlink_ModeSymlink ModeSymlink_neq_0)

lemma copy_posix_special:
  "copy n (posix pr) fl (FileTypeCopyHandlers (posix pr)) src dest
      (file_info nm (Special k a)) fs
     = Some (Some (UnsupportedFileTypeError (type_bits k OR ucast (perm a)) src), fs)"
  by (simp add: copy_other not_IsRegular_type_bits IsDir_def and_type_bits_ModeDir
      FileTypeCopyHandlers_def and_type_bits_ModeSymlink)


section \<open>A whole tree\<close>

lemma not_prefix_child:
  "\<not> prefix src dest \<Longrightarrow> \<not> prefix (src @ [name]) (dest @ [name])"
  by (auto dest: append_prefixD)

lemma resolve_child:
  assumes "resolve pr fs src = Inr (Directory a es)" and "may pr X a"
    and "distinct (map fst es)" and "(name, c) \<in> set es"
  shows "resolve pr fs (src @ [name]) = Inr c"
  using assms by (simp add: resolve_append)

text \<open>
  While the walk is under way, the next entry of the source is where it was, and its
  place in the new directory is vacant.
\<close>

lemma child_ready:
  assumes dest: "vacant pr fs dest"
    and src: "resolve pr fs src = Inr (Directory a es)" and x: "may pr X a"
    and dist: "distinct (map fst es)" and np: "\<not> prefix src dest"
    and w: "may pr X d" "may pr W d"
    and es: "es = seen @ (name, c) # rest"
  shows "resolve pr (put dest (Directory d (img_entries pr seen)) fs) (src @ [name]) = Inr c"
    and "vacant pr (put dest (Directory d (img_entries pr seen)) fs) (dest @ [name])"
    and "map_of (img_entries pr seen) name = None"
proof -
  let ?fsk = "put dest (Directory d (img_entries pr seen)) fs"
  let ?cs = "src @ [name]" and ?cd = "dest @ [name]"
  have mem: "(name, c) \<in> set es"
    using es by simp
  have "name \<notin> fst ` set seen"
    using dist es by auto
  then show fresh: "map_of (img_entries pr seen) name = None"
    by (rule map_of_img_entries_None)
  have here: "resolve pr ?fsk dest = Inr (Directory d (img_entries pr seen))"
    using dest by (rule resolve_put_vacant_same)
  show "vacant pr ?fsk ?cd"
    unfolding vacant_def using here w fresh by simp
  have "\<not> prefix dest ?cs"
  proof -
    have "resolve pr fs ?cs = Inr c"
      using src x dist mem by (rule resolve_child)
    with dest show ?thesis by (rule not_prefix_vacant)
  qed
  moreover have "\<not> prefix ?cs dest"
    using np by (auto simp add: prefix_def)
  ultimately have "resolve pr ?fsk ?cs = resolve pr fs ?cs"
    by (rule resolve_put_other)
  then show "resolve pr ?fsk ?cs = Inr c"
    using resolve_child [OF src x dist mem] by simp
qed

text \<open>
  The walk over the entries \<open>todo\<close> of a source directory, when the entries \<open>seen\<close> before
  them have been copied into the new directory and each entry of \<open>todo\<close> is copied as
  \<open>img\<close> says: the walk comes through, and the new directory holds the images of all.
\<close>

lemma dcopy_loop_posix:
  assumes dest: "vacant pr fs dest"
    and src: "resolve pr fs src = Inr (Directory a es)" and x: "may pr X a"
    and dist: "distinct (map fst es)" and np: "\<not> prefix src dest"
    and w: "may pr X d" "may pr W d"
    and sw: "\<And>name c. (name, c) \<in> set todo \<Longrightarrow> IgnoreUnsupportedFileTypes fl \<or> plain c"
    and kids: "\<And>name c fs'. (name, c) \<in> set todo \<Longrightarrow>
        resolve pr fs' (src @ [name]) = Inr c \<Longrightarrow> vacant pr fs' (dest @ [name]) \<Longrightarrow>
        copy m (posix pr) fl hs (src @ [name]) (dest @ [name]) (file_info name c) fs'
          = Some (dispatch_error c (src @ [name]),
                  case img pr c of None \<Rightarrow> fs' | Some c' \<Rightarrow> put (dest @ [name]) c' fs')"
    and es: "es = seen @ todo @ rest"
  shows "dcopy_loop m (posix pr) fl hs src dest (map (\<lambda>(name, c). file_info name c) todo)
            (put dest (Directory d (img_entries pr seen)) fs)
           = Some (None, put dest (Directory d (img_entries pr (seen @ todo))) fs)"
  using sw kids es
proof (induction todo arbitrary: seen)
  case Nil
  show ?case by simp
next
  case (Cons e todo)
  let ?info = "\<lambda>(name, c). file_info name c"
  obtain name c where e: "e = (name, c)" by (cases e)
  let ?fsk = "put dest (Directory d (img_entries pr seen)) fs"
  let ?cs = "src @ [name]" and ?cd = "dest @ [name]"
  have "es = seen @ (name, c) # (todo @ rest)"
    using Cons.prems(3) e by simp
  note ready = child_ready [OF dest src x dist np w this]
  have ok: "IgnoreUnsupportedFileTypes fl \<or> plain c"
    using Cons.prems(1) [of name c] e by simp
  have "copy m (posix pr) fl hs ?cs ?cd (file_info name c) ?fsk
          = Some (dispatch_error c ?cs,
                  case img pr c of None \<Rightarrow> ?fsk | Some c' \<Rightarrow> put ?cd c' ?fsk)"
    using _ ready(1,2) by (rule Cons.prems(2)) (simp add: e)
  moreover have "(case img pr c of None \<Rightarrow> ?fsk | Some c' \<Rightarrow> put ?cd c' ?fsk)
                 = put dest (Directory d (img_entries pr (seen @ [(name, c)]))) fs"
    using put_child [OF dest ready(3)]
    by (cases "img pr c") (simp_all add: img_entries_snoc)
  ultimately have step:
    "copy m (posix pr) fl hs (filepath_Join src (Name (file_info name c)))
        (filepath_Join dest (Name (file_info name c))) (file_info name c) ?fsk
       = Some (dispatch_error c ?cs,
               put dest (Directory d (img_entries pr (seen @ [(name, c)]))) fs)"
    by (simp only: filepath_Join_def Name_file_info)
  have swallow: "is_UnsupportedFileTypeError err \<and> IgnoreUnsupportedFileTypes fl"
    if "dispatch_error c ?cs = Some err" for err
    using that ok dispatch_error_unsupported [OF that]
    by (auto simp add: dispatch_error_plain)
  have "dcopy_loop m (posix pr) fl hs src dest (file_info name c # map ?info todo) ?fsk
      = dcopy_loop m (posix pr) fl hs src dest (map ?info todo)
          (put dest (Directory d (img_entries pr (seen @ [(name, c)]))) fs)"
    using step swallow by (rule dcopy_loop_next)
  also have "\<dots> = Some (None,
      put dest (Directory d (img_entries pr ((seen @ [(name, c)]) @ todo))) fs)"
  proof (rule Cons.IH)
    show "IgnoreUnsupportedFileTypes fl \<or> plain c'" if "(name', c') \<in> set todo" for name' c'
      using that by (intro Cons.prems(1) [of name' c']) simp
    show "copy m (posix pr) fl hs (src @ [name']) (dest @ [name']) (file_info name' c') fs'
            = Some (dispatch_error c' (src @ [name']),
                    case img pr c' of None \<Rightarrow> fs' | Some c'' \<Rightarrow> put (dest @ [name']) c'' fs')"
      if "(name', c') \<in> set todo" "resolve pr fs' (src @ [name']) = Inr c'"
        "vacant pr fs' (dest @ [name'])" for name' c' fs'
      using _ that(2,3) by (rule Cons.prems(2)) (simp add: that(1))
    show "es = (seen @ [(name, c)]) @ todo @ rest"
      using Cons.prems(3) e by simp
  qed
  finally show ?case
    by (simp add: e)
qed

text \<open>
  The first two calls of the walk on a vacant destination: the directory is made with
  mode 0755, which lets the process search it and write into it, and the source is listed.
\<close>

lemma dcopy_posix_start:
  assumes dest: "vacant pr fs dest"
    and src: "resolve pr fs src = Inr (Directory a es)"
    and rd: "may pr R a" "may pr X a" "sorted (map fst es)"
    and np: "\<not> prefix src dest"
  shows "MkdirAll (posix pr) dest tmpPermissionForDirectory fs
           = (None, put dest (Directory (new_attrs pr 0x1ED) []) fs)"
    and "ReadDir (posix pr) src (put dest (Directory (new_attrs pr 0x1ED) []) fs)
           = (Inr (map (\<lambda>(name, c). file_info name c) es),
              put dest (Directory (new_attrs pr 0x1ED) []) fs)"
    and "may pr X (new_attrs pr 0x1ED)" and "may pr W (new_attrs pr 0x1ED)"
proof -
  let ?fs1 = "put dest (Directory (new_attrs pr 0x1ED) []) fs"
  show "MkdirAll (posix pr) dest tmpPermissionForDirectory fs = (None, ?fs1)"
    using px_MkdirAll_vacant [OF dest, of tmpPermissionForDirectory]
    by (simp add: tmpPermissionForDirectory_def)
  have np': "\<not> prefix dest src"
    using dest src by (rule not_prefix_vacant)
  have "resolve pr ?fs1 src = Inr (Directory a es)"
    using np np' src by (simp add: resolve_put_other)
  then have "px_ReadDir pr src ?fs1 = (Inr (map (\<lambda>(name, c). file_info name c) es), ?fs1)"
    using rd by (rule px_ReadDir_directory)
  then show "ReadDir (posix pr) src ?fs1
      = (Inr (map (\<lambda>(name, c). file_info name c) es), ?fs1)"
    by simp
  show "may pr X (new_attrs pr 0x1ED)" and "may pr W (new_attrs pr 0x1ED)"
    by (simp_all add: may_new_attrs)
qed

text \<open>
  The deferred \<open>Chmod\<close> on the new directory gives it the permission bits of the source
  directory, whatever it holds by then.
\<close>

lemma dcopy_posix_end:
  assumes "vacant pr fs dest"
  shows "Chmod (posix pr) dest (ModeDir OR ucast (perm a)) (put dest (Directory (new_attrs pr p) ds) fs)
           = (None, put dest (Directory (new_attrs pr (perm a)) ds) fs)"
proof -
  have "px_Chmod pr dest (ModeDir OR ucast (perm a)) (put dest (Directory (new_attrs pr p) ds) fs)
      = (None, put dest (set_perm (ucast (ModeDir OR ucast (perm a)))
                 (Directory (new_attrs pr p) ds)) (put dest (Directory (new_attrs pr p) ds) fs))"
    by (rule px_Chmod_own) (simp_all add: resolve_put_vacant_same [OF assms])
  then show ?thesis
    by (simp add: put_put perm_of_ModeDir)
qed

lemma copy_posix_tree:
  assumes fl: "\<not> PreserveOwner fl" "\<not> PreserveTime fl"
  shows "readable pr t \<Longrightarrow> IgnoreUnsupportedFileTypes fl \<or> plain t \<Longrightarrow> depth t \<le> n \<Longrightarrow>
         resolve pr fs src = Inr t \<Longrightarrow> vacant pr fs dest \<Longrightarrow> \<not> prefix src dest \<Longrightarrow>
         copy n (posix pr) fl (FileTypeCopyHandlers (posix pr)) src dest (file_info nm t) fs
           = Some (dispatch_error t src,
                   case img pr t of None \<Rightarrow> fs | Some t' \<Rightarrow> put dest t' fs)"
proof (induction t arbitrary: n fs src dest nm)
  case (File a bs)
  then show ?case
    using copy_posix_file [OF fl, of pr fs src a bs dest n] by simp
next
  case (Link a t)
  then show ?case
    using copy_posix_link [of pr fs src a t dest] by simp
next
  case (Special k a)
  show ?case
    by (simp add: copy_posix_special)
next
  case (Directory a es)
  let ?H = "FileTypeCopyHandlers (posix pr)"
  let ?info = "\<lambda>(name, c). file_info name c"
  let ?d0 = "new_attrs pr 0x1ED"
  let ?D = "file_info nm (Directory a es)"
  note src = \<open>resolve pr fs src = Inr (Directory a es)\<close>
  note dest = \<open>vacant pr fs dest\<close>
  note np = \<open>\<not> prefix src dest\<close>
  from Directory.prems(1) have rd: "may pr R a" "may pr X a" "sorted (map fst es)"
    and dist: "distinct (map fst es)"
    by simp_all
  from Directory.prems(3) obtain m where n: "n = Suc m"
    by (cases n) simp_all
  note start = dcopy_posix_start [OF dest src rd np]
  let ?fs1 = "put dest (Directory ?d0 []) fs"
  let ?fsK = "put dest (Directory ?d0 (img_entries pr es)) fs"
  let ?E = "Directory (new_attrs pr (perm a)) (img_entries pr es)"
  have "dcopy_loop m (posix pr) fl ?H src dest (map ?info es)
          (put dest (Directory ?d0 (img_entries pr [])) fs)
        = Some (None, put dest (Directory ?d0 (img_entries pr ([] @ es))) fs)"
    using dest src rd(2) dist np start(3,4)
  proof (rule dcopy_loop_posix [where rest = "[]"])
    fix name c
    assume mem: "(name, c) \<in> set es"
    show "IgnoreUnsupportedFileTypes fl \<or> plain c"
      using Directory.prems(2) plain_child [OF _ mem] by blast
    fix fs'
    assume r: "resolve pr fs' (src @ [name]) = Inr c" and v: "vacant pr fs' (dest @ [name])"
    show "copy m (posix pr) fl ?H (src @ [name]) (dest @ [name]) (file_info name c) fs'
            = Some (dispatch_error c (src @ [name]),
                    case img pr c of None \<Rightarrow> fs' | Some c' \<Rightarrow> put (dest @ [name]) c' fs')"
    proof (rule Directory.IH [OF mem])
      show "c \<in> Basic_BNFs.snds (name, c)" by simp
      show "readable pr c" using Directory.prems(1) mem by (rule readable_child)
      show "depth c \<le> m" using mem Directory.prems(3) unfolding n by (rule depth_child)
      show "IgnoreUnsupportedFileTypes fl \<or> plain c"
        using Directory.prems(2) plain_child [OF _ mem] by blast
    qed (fact r v not_prefix_child [OF np])+
  qed simp
  then have walk: "dcopy_loop m (posix pr) fl ?H src dest (map ?info es) ?fs1 = Some (None, ?fsK)"
    by simp
  have ch: "Chmod (posix pr) dest (Mode ?D) ?fsK = (None, put dest ?E fs)"
    using dcopy_posix_end [OF dest] by simp
  have d: "dcopy (Suc m) (posix pr) fl ?H src dest ?D fs = Some (None, put dest ?E fs)"
    by (simp only: dcopy.simps Let_def start(1,2) walk ch prod.case option.case sum.case snd_conv)
  have "restore (posix pr) fl dest ?D (put dest ?E fs)
      = (None, if PreservePermissions fl
               then put dest (set_perm (ucast (Mode ?D)) ?E) (put dest ?E fs)
               else put dest ?E fs)"
    using fl by (rule restore_posix) (simp_all add: resolve_put_vacant_same [OF dest])
  then have re: "restore (posix pr) fl dest ?D (put dest ?E fs) = (None, put dest ?E fs)"
    by (simp add: put_put perm_of_ModeDir)
  have "copy n (posix pr) fl ?H src dest ?D fs
      = (case dcopy n (posix pr) fl ?H src dest ?D fs of
           None \<Rightarrow> None
         | Some (Some err, s') \<Rightarrow> Some (Some err, s')
         | Some (None, s') \<Rightarrow> Some (restore (posix pr) fl dest ?D s'))"
    by (rule copy_directory)
      (simp_all add: not_IsRegular_ModeDir IsDir_def and_ModeDir_ModeDir ModeDir_neq_0)
  also have "\<dots> = Some (None, put dest ?E fs)"
    unfolding n d by (simp only: option.case prod.case re)
  finally show ?case
    by (simp only: dispatch_error.simps img_Directory option.case)
qed

section \<open>The entry point\<close>

lemma Copy_posix:
  assumes "resolve pr fs src = Inr t"
  shows "Copy n (posix pr) fl hs src dest fs =
           (case copy n (posix pr) fl hs src dest (file_info (base src) t) fs of
              None \<Rightarrow> None
            | Some (None, s2) \<Rightarrow> Some (None, s2)
            | Some (Some err, s2) \<Rightarrow>
                if is_UnsupportedFileTypeError err
                then (if \<not> IgnoreUnsupportedFileTypes fl then Some (Some err, s2)
                      else Some (None, s2))
                else Some (Some err, s2))"
  using assms by (simp add: Copy_def px_Lstat_def)

lemma Copy_posix_tree:
  assumes fl: "\<not> PreserveOwner fl" "\<not> PreserveTime fl"
    and t: "resolve pr fs src = Inr t" "readable pr t" "IgnoreUnsupportedFileTypes fl \<or> plain t"
      "depth t \<le> n"
    and dest: "vacant pr fs dest" "\<not> prefix src dest"
  shows "Copy n (posix pr) fl (FileTypeCopyHandlers (posix pr)) src dest fs
           = Some (None, case img pr t of None \<Rightarrow> fs | Some t' \<Rightarrow> put dest t' fs)"
proof -
  have c: "copy n (posix pr) fl (FileTypeCopyHandlers (posix pr)) src dest
             (file_info (base src) t) fs
           = Some (dispatch_error t src,
                   case img pr t of None \<Rightarrow> fs | Some t' \<Rightarrow> put dest t' fs)"
    using fl t(2,3,4,1) dest by (rule copy_posix_tree)
  show ?thesis
  proof (cases "dispatch_error t src")
    case None
    with c show ?thesis
      by (simp add: Copy_posix [OF t(1)])
  next
    case (Some err)
    then have "is_UnsupportedFileTypeError err"
      by (rule dispatch_error_unsupported)
    moreover from Some t(3) have "IgnoreUnsupportedFileTypes fl"
      by (auto simp add: dispatch_error_plain)
    ultimately show ?thesis
      using c Some by (simp add: Copy_posix [OF t(1)])
  qed
qed

section \<open>A tree with an entry that is not copied\<close>

lemma not_plain_child:
  assumes "\<not> plain (Directory a es)"
  obtains seen name c rest where "es = seen @ (name, c) # rest" and "\<not> plain c"
    and "\<And>name' c'. (name', c') \<in> set seen \<Longrightarrow> plain c'"
proof -
  from assms have "\<exists>e \<in> set es. \<not> plain (snd e)"
    by (auto simp add: list_all_iff)
  then obtain seen e rest where "es = seen @ e # rest" "\<not> plain (snd e)"
    "\<forall>y \<in> set seen. \<not> \<not> plain (snd y)"
    by (rule split_list_first_propE)
  then show thesis
    by (intro that [of seen "fst e" "snd e" rest]) auto
qed

lemma copy_posix_unsupported:
  assumes fl: "\<not> PreserveOwner fl" "\<not> PreserveTime fl" "\<not> IgnoreUnsupportedFileTypes fl"
  shows "readable pr t \<Longrightarrow> \<not> plain t \<Longrightarrow> depth t \<le> n \<Longrightarrow>
         resolve pr fs src = Inr t \<Longrightarrow> vacant pr fs dest \<Longrightarrow> \<not> prefix src dest \<Longrightarrow>
         \<exists>m p fs'. copy n (posix pr) fl (FileTypeCopyHandlers (posix pr)) src dest
                      (file_info nm t) fs
                    = Some (Some (UnsupportedFileTypeError m p), fs')"
proof (induction t arbitrary: n fs src dest nm)
  case (File a bs)
  then show ?case by simp
next
  case (Link a t)
  then show ?case
    using copy_posix_link [of pr fs src a t dest] by simp
next
  case (Special k a)
  show ?case
    by (simp add: copy_posix_special)
next
  case (Directory a es)
  let ?H = "FileTypeCopyHandlers (posix pr)"
  let ?info = "\<lambda>(name, c). file_info name c"
  let ?d0 = "new_attrs pr 0x1ED"
  let ?D = "file_info nm (Directory a es)"
  note src = \<open>resolve pr fs src = Inr (Directory a es)\<close>
  note dest = \<open>vacant pr fs dest\<close>
  note np = \<open>\<not> prefix src dest\<close>
  from Directory.prems(1) have rd: "may pr R a" "may pr X a" "sorted (map fst es)"
    and dist: "distinct (map fst es)"
    by simp_all
  from Directory.prems(3) obtain k where n: "n = Suc k"
    by (cases n) simp_all
  note start = dcopy_posix_start [OF dest src rd np]
  from Directory.prems(2) obtain seen name c rest
    where es: "es = seen @ (name, c) # rest" and c: "\<not> plain c"
      and seen: "\<And>name' c'. (name', c') \<in> set seen \<Longrightarrow> plain c'"
    by (rule not_plain_child) blast
  let ?fs1 = "put dest (Directory ?d0 []) fs"
  let ?fsk = "put dest (Directory ?d0 (img_entries pr seen)) fs"
  have mem: "(name, c) \<in> set es"
    using es by simp
  have "dcopy_loop k (posix pr) fl ?H src dest (map ?info seen)
          (put dest (Directory ?d0 (img_entries pr [])) fs)
        = Some (None, put dest (Directory ?d0 (img_entries pr ([] @ seen))) fs)"
    using dest src rd(2) dist np start(3,4)
  proof (rule dcopy_loop_posix [where rest = "(name, c) # rest"])
    fix name' c'
    assume mem': "(name', c') \<in> set seen"
    then show "IgnoreUnsupportedFileTypes fl \<or> plain c'"
      by (simp add: seen)
    fix fs'
    assume r: "resolve pr fs' (src @ [name']) = Inr c'"
      and v: "vacant pr fs' (dest @ [name'])"
    have in_es: "(name', c') \<in> set es"
      using mem' es by simp
    show "copy k (posix pr) fl ?H (src @ [name']) (dest @ [name']) (file_info name' c') fs'
            = Some (dispatch_error c' (src @ [name']),
                    case img pr c' of None \<Rightarrow> fs' | Some c'' \<Rightarrow> put (dest @ [name']) c'' fs')"
      using fl(1,2)
    proof (rule copy_posix_tree)
      show "readable pr c'" using Directory.prems(1) in_es by (rule readable_child)
      show "IgnoreUnsupportedFileTypes fl \<or> plain c'" using mem' by (simp add: seen)
      show "depth c' \<le> k" using in_es Directory.prems(3) unfolding n by (rule depth_child)
    qed (fact r v not_prefix_child [OF np])+
  qed (simp add: es)
  then have pre: "dcopy_loop k (posix pr) fl ?H src dest (map ?info seen) ?fs1 = Some (None, ?fsk)"
    by simp
  note ready = child_ready [OF dest src rd(2) dist np start(3,4) es]
  obtain m p fs' where
    "copy k (posix pr) fl ?H (src @ [name]) (dest @ [name]) (file_info name c) ?fsk
       = Some (Some (UnsupportedFileTypeError m p), fs')"
  proof -
    have "\<exists>m p fs'. copy k (posix pr) fl ?H (src @ [name]) (dest @ [name]) (file_info name c) ?fsk
       = Some (Some (UnsupportedFileTypeError m p), fs')"
    proof (rule Directory.IH [OF mem])
      show "c \<in> Basic_BNFs.snds (name, c)" by simp
      show "readable pr c" using Directory.prems(1) mem by (rule readable_child)
      show "depth c \<le> k" using mem Directory.prems(3) unfolding n by (rule depth_child)
    qed (fact c ready(1,2) not_prefix_child [OF np])+
    then show thesis using that by blast
  qed
  then have child:
    "copy k (posix pr) fl ?H (filepath_Join src (Name (file_info name c)))
        (filepath_Join dest (Name (file_info name c))) (file_info name c) ?fsk
       = Some (Some (UnsupportedFileTypeError m p), fs')"
    by (simp only: filepath_Join_def Name_file_info)
  have ls: "ReadDir (posix pr) src ?fs1
      = (Inr (map ?info seen @ file_info name c # map ?info rest), ?fs1)"
    using start(2) by (simp add: es)
  have "dcopy_loop k (posix pr) fl ?H src dest
          (map ?info seen @ file_info name c # map ?info rest) ?fs1
        = Some (Some (UnsupportedFileTypeError m p), fs')"
    using dcopy_loop_child_error [OF pre child] fl(3) by simp
  then have d: "dcopy (Suc k) (posix pr) fl ?H src dest ?D fs
      = Some (Some (UnsupportedFileTypeError m p),
              snd (Chmod (posix pr) dest (Mode ?D) fs'))"
    using dcopy_listed [OF start(1) ls, of k fl ?H ?D] by simp
  have "copy n (posix pr) fl ?H src dest ?D fs
      = (case dcopy n (posix pr) fl ?H src dest ?D fs of
           None \<Rightarrow> None
         | Some (Some err, s') \<Rightarrow> Some (Some err, s')
         | Some (None, s') \<Rightarrow> Some (restore (posix pr) fl dest ?D s'))"
    by (rule copy_directory)
      (simp_all add: not_IsRegular_ModeDir IsDir_def and_ModeDir_ModeDir ModeDir_neq_0)
  then show ?case
    unfolding n d by simp
qed


section \<open>What is at the destination\<close>

lemma img_None: "img pr c = None \<Longrightarrow> \<exists>k a. c = Special k a"
  by (cases c) simp_all

lemma map_of_img_entries:
  "distinct (map fst es) \<Longrightarrow>
   map_of (img_entries pr es) x = Option.bind (map_of es x) (img pr)"
proof (induction es)
  case Nil
  show ?case by simp
next
  case (Cons e es)
  obtain name c where e: "e = (name, c)" by (cases e)
  from Cons.prems e have "name \<notin> fst ` set es" and "distinct (map fst es)"
    by auto
  then have absent: "map_of es name = None"
    and IH: "map_of (img_entries pr es) x = Option.bind (map_of es x) (img pr)"
    by (simp_all add: map_of_eq_None_iff Cons.IH)
  have "img_entries pr (e # es)
      = (case img pr c of None \<Rightarrow> [] | Some c' \<Rightarrow> [(name, c')]) @ img_entries pr es"
    by (cases "img pr c") (simp_all add: img_entries_def e)
  then show ?case
    using absent IH by (cases "img pr c") (simp_all add: e)
qed

lemma node_at_img:
  "readable pr t \<Longrightarrow> img pr t = Some t' \<Longrightarrow> node_at t' q = Option.bind (node_at t q) (img pr)"
proof (induction q arbitrary: t t')
  case Nil
  then show ?case by simp
next
  case (Cons x q)
  show ?case
  proof (cases t)
    case (Directory a es)
    with Cons.prems have t': "t' = Directory (new_attrs pr (perm a)) (img_entries pr es)"
      and dist: "distinct (map fst es)"
      by (simp_all add: img_entries_def)
    show ?thesis
    proof (cases "map_of es x")
      case None
      then show ?thesis
        using Directory t' by (simp add: map_of_img_entries [OF dist])
    next
      case (Some c)
      then have mem: "(x, c) \<in> set es" by (rule map_of_SomeD)
      have rc: "readable pr c"
        using Cons.prems(1) mem unfolding Directory by (rule readable_child)
      show ?thesis
      proof (cases "img pr c")
        case None
        then obtain k b where "c = Special k b"
          using img_None by blast
        then show ?thesis
          using Directory t' Some None
          by (cases q) (simp_all add: map_of_img_entries [OF dist])
      next
        case (Some c')
        with rc have "node_at c' q = Option.bind (node_at c q) (img pr)"
          by (rule Cons.IH)
        then show ?thesis
          using Directory t' Some \<open>map_of es x = Some c\<close>
          by (simp add: map_of_img_entries [OF dist])
      qed
    qed
  qed (use Cons.prems in auto)
qed

lemma plain_node_at: "plain t \<Longrightarrow> node_at t q = Some n \<Longrightarrow> plain n"
proof (induction q arbitrary: t)
  case Nil
  then show ?case by simp
next
  case (Cons x q)
  show ?case
  proof (cases t)
    case (Directory a es)
    with Cons.prems(2) obtain c where c: "map_of es x = Some c" "node_at c q = Some n"
      by (auto split: option.splits)
    then have "(x, c) \<in> set es" by (auto dest: map_of_SomeD)
    with Cons.prems(1) have "plain c"
      unfolding Directory by (rule plain_child)
    then show ?thesis
      using c(2) by (rule Cons.IH)
  qed (use Cons.prems in auto)
qed

lemma img_plain: "plain n \<Longrightarrow> \<exists>n'. img pr n = Some n' \<and> node_mode n' = node_mode n"
  by (cases n) simp_all

lemma node_at_img_plain:
  assumes "readable pr t" and "plain t" and "img pr t = Some t'" and "node_at t q = Some n"
  shows "\<exists>n'. node_at t' q = Some n' \<and> img pr n = Some n' \<and> node_mode n' = node_mode n"
proof -
  have "plain n"
    using assms(2,4) by (rule plain_node_at)
  then obtain n' where "img pr n = Some n'" "node_mode n' = node_mode n"
    using img_plain by blast
  then show ?thesis
    using node_at_img [OF assms(1,3), of q] assms(4) by simp
qed

lemma lcopy_posix_done:
  assumes "lcopy (posix pr) src dest info fs = (None, fs')"
    and "resolve pr fs src = Inr (Link a t)"
  shows "vacant pr fs dest" and "fs' = put dest (Link (new_attrs pr 0x1FF) t) fs"
proof -
  have s: "px_Symlink pr t dest fs = (None, fs')"
    using assms by (simp add: lcopy_def px_Readlink_link)
  then show "vacant pr fs dest"
    unfolding px_Symlink_def add_entry_def vacant_def
    by (auto split: if_splits sum.splits node.splits)
  then show "fs' = put dest (Link (new_attrs pr 0x1FF) t) fs"
    using s by (simp add: px_Symlink_vacant)
qed


section \<open>Symbolic links\<close>

text \<open>
  C4. When the source path is itself a symbolic link with target \<open>t\<close> and the destination
  is vacant, \<open>Copy\<close> leaves a symbolic link at the destination, not a copy of what the
  link points to, and so does the dispatch step for every link entry it copies. The
  target string read back from the new link is \<open>t\<close>, the string read from the source
  link. (The call itself ends with the unsupported-type error unless that is ignored.)
\<close>

theorem Copy_symlink_is_symlink:
  assumes "resolve pr fs src = Inr (Link a t)" and "vacant pr fs dest"
  shows "Copy n (posix pr) fl (FileTypeCopyHandlers (posix pr)) src dest fs
           = Some (if IgnoreUnsupportedFileTypes fl then None
                   else Some (UnsupportedFileTypeError (ModeSymlink OR ucast (perm a)) src),
                   put dest (Link (new_attrs pr 0x1FF) t) fs)
       \<and> copy n (posix pr) fl (FileTypeCopyHandlers (posix pr)) src dest
             (file_info nm (Link a t)) fs
           = Some (Some (UnsupportedFileTypeError (ModeSymlink OR ucast (perm a)) src),
                   put dest (Link (new_attrs pr 0x1FF) t) fs)
       \<and> (\<exists>info. Lstat (posix pr) dest (put dest (Link (new_attrs pr 0x1FF) t) fs)
                    = (Inr info, put dest (Link (new_attrs pr 0x1FF) t) fs)
                  \<and> Mode info AND ModeSymlink \<noteq> 0)
       \<and> Readlink (posix pr) src fs = (Inr t, fs)
       \<and> Readlink (posix pr) dest (put dest (Link (new_attrs pr 0x1FF) t) fs)
           = (Inr t, put dest (Link (new_attrs pr 0x1FF) t) fs)"
proof -
  let ?fs' = "put dest (Link (new_attrs pr 0x1FF) t) fs"
  let ?err = "UnsupportedFileTypeError (ModeSymlink OR ucast (perm a)) src"
  have c: "copy n (posix pr) fl (FileTypeCopyHandlers (posix pr)) src dest
             (file_info nm (Link a t)) fs = Some (Some ?err, ?fs')" for nm
    using assms by (rule copy_posix_link)
  have "Copy n (posix pr) fl (FileTypeCopyHandlers (posix pr)) src dest fs
      = Some (if IgnoreUnsupportedFileTypes fl then None else Some ?err, ?fs')"
    by (simp add: Copy_posix [OF assms(1)] c)
  moreover have here: "resolve pr ?fs' dest = Inr (Link (new_attrs pr 0x1FF) t)"
    using assms(2) by (rule resolve_put_vacant_same)
  then have "Lstat (posix pr) dest ?fs'
               = (Inr (file_info (base dest) (Link (new_attrs pr 0x1FF) t)), ?fs')"
    by (simp add: px_Lstat_def)
  moreover have "Mode (file_info (base dest) (Link (new_attrs pr 0x1FF) t)) AND ModeSymlink \<noteq> 0"
    by (simp add: and_ModeSymlink_ModeSymlink ModeSymlink_neq_0)
  moreover have "Readlink (posix pr) src fs = (Inr t, fs)"
    using assms(1) by (simp add: px_Readlink_link)
  moreover have "Readlink (posix pr) dest ?fs' = (Inr t, ?fs')"
    using here by (simp add: px_Readlink_link)
  ultimately show ?thesis
    using c by blast
qed

theorem Copy_symlink_is_symlink_witness:
  "Copy 0 (posix user) default_Flags (FileTypeCopyHandlers (posix user))
      [''src'', ''l''] [''dst''] disk
     = Some (Some (UnsupportedFileTypeError (ModeSymlink OR 0x1FF) [''src'', ''l'']),
             put [''dst''] (Link (new_attrs user 0x1FF) ''/etc/hosts'') disk)
   \<and> Readlink (posix user) [''dst'']
        (put [''dst''] (Link (new_attrs user 0x1FF) ''/etc/hosts'') disk)
     = (Inr ''/etc/hosts'', put [''dst''] (Link (new_attrs user 0x1FF) ''/etc/hosts'') disk)"
proof -
  have h1: "resolve user disk [''src'', ''l''] = Inr (Link (owned 0x1FF) ''/etc/hosts'')"
    by code_simp
  have h2: "vacant user disk [''dst'']"
    by code_simp
  show ?thesis
    using Copy_symlink_is_symlink [OF h1 h2, of 0 default_Flags]
    by (simp add: default_Flags_def owned_def)
qed

text \<open>
  C10. The dispatch step processes a symbolic-link entry with the default handler, and
  the handler's link creation succeeds, leaving the state \<open>fs'\<close>. Then the step returns an
  error, the unsupported-type error, and yet the link is on disk in the state it returns:
  it reads back with the target of the source link. When unsupported types are not
  ignored, \<open>Copy\<close> on that source returns the same error in the same state.
\<close>

theorem copy_link_created_although_error:
  assumes "resolve pr fs src = Inr (Link a t)"
    and "lcopy (posix pr) src dest (file_info nm (Link a t)) fs = (None, fs')"
  shows "copy n (posix pr) fl (FileTypeCopyHandlers (posix pr)) src dest
            (file_info nm (Link a t)) fs
           = Some (Some (UnsupportedFileTypeError (ModeSymlink OR ucast (perm a)) src), fs')
       \<and> Readlink (posix pr) dest fs' = (Inr t, fs')
       \<and> (\<not> IgnoreUnsupportedFileTypes fl \<longrightarrow>
            Copy n (posix pr) fl (FileTypeCopyHandlers (posix pr)) src dest fs
              = Some (Some (UnsupportedFileTypeError (ModeSymlink OR ucast (perm a)) src), fs'))"
proof -
  let ?err = "UnsupportedFileTypeError (ModeSymlink OR ucast (perm a)) src"
  note made = lcopy_posix_done [OF assms(2,1)]
  have c: "copy n (posix pr) fl (FileTypeCopyHandlers (posix pr)) src dest
             (file_info nm (Link a t)) fs = Some (Some ?err, fs')" for nm
    unfolding made(2) using assms(1) made(1) by (rule copy_posix_link)
  have "resolve pr fs' dest = Inr (Link (new_attrs pr 0x1FF) t)"
    unfolding made(2) using made(1) by (rule resolve_put_vacant_same)
  then have "Readlink (posix pr) dest fs' = (Inr t, fs')"
    by (simp add: px_Readlink_link)
  moreover have "Copy n (posix pr) fl (FileTypeCopyHandlers (posix pr)) src dest fs
      = Some (Some ?err, fs')" if "\<not> IgnoreUnsupportedFileTypes fl"
    using that by (simp add: Copy_posix [OF assms(1)] c)
  ultimately show ?thesis
    using c by blast
qed

theorem copy_link_created_although_error_witness:
  "copy 0 (posix user) default_Flags (FileTypeCopyHandlers (posix user))
      [''src'', ''l''] [''dst''] (file_info ''l'' (Link (owned 0x1FF) ''/etc/hosts'')) disk
     = Some (Some (UnsupportedFileTypeError (ModeSymlink OR 0x1FF) [''src'', ''l'']),
             put [''dst''] (Link (new_attrs user 0x1FF) ''/etc/hosts'') disk)
   \<and> Readlink (posix user) [''dst'']
        (put [''dst''] (Link (new_attrs user 0x1FF) ''/etc/hosts'') disk)
     = (Inr ''/etc/hosts'', put [''dst''] (Link (new_attrs user 0x1FF) ''/etc/hosts'') disk)
   \<and> Copy 0 (posix user) default_Flags (FileTypeCopyHandlers (posix user))
        [''src'', ''l''] [''dst''] disk
     = Some (Some (UnsupportedFileTypeError (ModeSymlink OR 0x1FF) [''src'', ''l'']),
             put [''dst''] (Link (new_attrs user 0x1FF) ''/etc/hosts'') disk)"
proof -
  have h1: "resolve user disk [''src'', ''l''] = Inr (Link (owned 0x1FF) ''/etc/hosts'')"
    by code_simp
  have h2: "lcopy (posix user) [''src'', ''l''] [''dst'']
              (file_info ''l'' (Link (owned 0x1FF) ''/etc/hosts'')) disk
            = (None, put [''dst''] (Link (new_attrs user 0x1FF) ''/etc/hosts'') disk)"
    by code_simp
  show ?thesis
    using copy_link_created_although_error [OF h1 h2, of 0 default_Flags]
    by (simp add: default_Flags_def owned_def)
qed


section \<open>Whole trees\<close>

text \<open>
  C1. The claim: for every source tree of regular files, directories and symbolic links,
  \<open>Copy\<close> into a fresh destination succeeds and reproduces names and contents. On a
  directory with the files \<open>a\<close> and \<open>z\<close> and the link \<open>l\<close> between them, with the flags at
  their defaults, \<open>Copy\<close> does not succeed: it returns the unsupported-type error for
  \<open>l\<close>, and the destination holds \<open>a\<close> and \<open>l\<close> but not \<open>z\<close>.
\<close>

theorem Copy_tree_with_link_fails:
  "Copy 1 (posix user) default_Flags (FileTypeCopyHandlers (posix user))
      [''src''] [''dst''] link_disk
     = Some (Some (UnsupportedFileTypeError (ModeSymlink OR 0x1FF) [''src'', ''l'']),
             put [''dst'']
               (Directory (new_attrs user 0x1ED)
                  [(''a'', File (new_attrs user 0x1A4) [1, 2, 3]),
                   (''l'', Link (new_attrs user 0x1FF) ''a'')])
               link_disk)
   \<and> node_at link_disk [''src'', ''z''] = Some (File (owned 0x1A4) [9])
   \<and> node_at
         (put [''dst'']
            (Directory (new_attrs user 0x1ED)
               [(''a'', File (new_attrs user 0x1A4) [1, 2, 3]),
                (''l'', Link (new_attrs user 0x1FF) ''a'')])
            link_disk)
         [''dst'', ''z''] = None"
  by code_simp

text \<open>
  C5, as the claim states it, fails: with the four flags at their defaults, the copy of
  a directory of mode 0500 that holds a file of mode 0600 completes, and the destination
  directory ends with mode 0500, not 0755, and the destination file with mode 0600, the
  source's, not with the 0666 that \<open>os.Create\<close> produces.
\<close>

theorem default_flags_keep_source_modes_counterexample:
  "Copy 2 (posix user) default_Flags (FileTypeCopyHandlers (posix user))
      [''src''] [''dst''] plain_disk
     = Some (None,
             put [''dst'']
               (Directory (new_attrs user 0x140)
                  [(''a'', File (new_attrs user 0x180) [1, 2, 3]),
                   (''sub'', Directory (new_attrs user 0x1C0)
                      [(''b'', File (new_attrs user 0x1A4) [9])])])
               plain_disk)
   \<and> map_sum id Mode
        (fst (Lstat (posix user) [''dst'']
           (put [''dst'']
              (Directory (new_attrs user 0x140)
                 [(''a'', File (new_attrs user 0x180) [1, 2, 3]),
                  (''sub'', Directory (new_attrs user 0x1C0)
                     [(''b'', File (new_attrs user 0x1A4) [9])])])
              plain_disk)))
     = Inr (ModeDir OR 0x140)
   \<and> ModeDir OR 0x140 \<noteq> ModeDir OR tmpPermissionForDirectory
   \<and> map_sum id Mode
        (fst (Lstat (posix user) [''dst'', ''a'']
           (put [''dst'']
              (Directory (new_attrs user 0x140)
                 [(''a'', File (new_attrs user 0x180) [1, 2, 3]),
                  (''sub'', Directory (new_attrs user 0x1C0)
                     [(''b'', File (new_attrs user 0x1A4) [9])])])
              plain_disk)))
     = Inr 0x180
   \<and> map_sum id Mode (fst (Lstat (posix user) [''src'', ''a''] plain_disk)) = Inr 0x180
   \<and> map_sum id Mode
        (fst (Lstat (posix user) [''new'']
           (snd (Create (posix user) [''new''] plain_disk))))
     = Inr 0x1B6"
  by code_simp


text \<open>
  C5, amended. With the four flags at their defaults, the copy of a tree of regular
  files and directories into a vacant destination completes, and every entry of the
  destination has the mode of the source entry it was copied from: the deferred
  \<open>Chmod\<close> of the walk replaces the 0755 a directory was made with by the source
  directory's mode, and the \<open>Chmod\<close> of the file copy replaces what \<open>os.Create\<close>
  produced by the source file's mode.
\<close>

theorem default_flags_keep_source_modes:
  assumes "resolve pr fs src = Inr t" and "readable pr t" and "plain t" and "depth t \<le> n"
    and "vacant pr fs dest" and "\<not> prefix src dest"
  shows "\<exists>t'. Copy n (posix pr) default_Flags (FileTypeCopyHandlers (posix pr)) src dest fs
                 = Some (None, put dest t' fs)
             \<and> resolve pr (put dest t' fs) dest = Inr t'
             \<and> (\<forall>q e. node_at t q = Some e \<longrightarrow>
                    (\<exists>e'. node_at t' q = Some e' \<and> node_mode e' = node_mode e))"
proof -
  obtain t' where t': "img pr t = Some t'"
    using img_plain [OF assms(3)] by blast
  have "Copy n (posix pr) default_Flags (FileTypeCopyHandlers (posix pr)) src dest fs
      = Some (None, case img pr t of None \<Rightarrow> fs | Some t' \<Rightarrow> put dest t' fs)"
    by (rule Copy_posix_tree) (simp_all add: default_Flags_def assms)
  then have "Copy n (posix pr) default_Flags (FileTypeCopyHandlers (posix pr)) src dest fs
      = Some (None, put dest t' fs)"
    by (simp add: t')
  moreover have "resolve pr (put dest t' fs) dest = Inr t'"
    using assms(5) by (rule resolve_put_vacant_same)
  moreover have "\<exists>e'. node_at t' q = Some e' \<and> node_mode e' = node_mode e"
    if "node_at t q = Some e" for q e
    using node_at_img_plain [OF assms(2,3) t' that] by blast
  ultimately show ?thesis by blast
qed

theorem default_flags_keep_source_modes_witness:
  "\<exists>t'. Copy 2 (posix user) default_Flags (FileTypeCopyHandlers (posix user))
           [''src''] [''dst''] plain_disk
          = Some (None, put [''dst''] t' plain_disk)
       \<and> resolve user (put [''dst''] t' plain_disk) [''dst''] = Inr t'
       \<and> (\<forall>q e. node_at (Directory (owned 0x140)
                      [(''a'', File (owned 0x180) [1, 2, 3]),
                       (''sub'', Directory (owned 0x1C0) [(''b'', File (owned 0x1A4) [9])])]) q
                    = Some e \<longrightarrow>
              (\<exists>e'. node_at t' q = Some e' \<and> node_mode e' = node_mode e))"
proof -
  let ?t = "Directory (owned 0x140)
              [(''a'', File (owned 0x180) [1, 2, 3]),
               (''sub'', Directory (owned 0x1C0) [(''b'', File (owned 0x1A4) [9])])]"
  have h1: "resolve user plain_disk [''src''] = Inr ?t" by code_simp
  have h2: "readable user ?t" by code_simp
  have h3: "plain ?t" by code_simp
  have h4: "depth ?t \<le> 2" by code_simp
  have h5: "vacant user plain_disk [''dst'']" by code_simp
  have h6: "\<not> prefix [''src''] [''dst'']" by simp
  show ?thesis
    using h1 h2 h3 h4 h5 h6 by (rule default_flags_keep_source_modes)
qed

text \<open>
  C6. A readable source tree holds an entry that is neither a regular file nor a
  directory, such as a named pipe, for which no handler is registered; the destination is
  vacant and neither owner nor time is restored. When unsupported types are not ignored,
  \<open>Copy\<close> returns an unsupported-type error. When they are ignored, \<open>Copy\<close> returns
  success, and the destination tree holds at every path the image of the source entry at
  that path, and nothing where the source has a special file: every other entry is
  there, the unsupported one is not.
\<close>

theorem Copy_unsupported_policy:
  assumes "\<not> PreserveOwner fl" and "\<not> PreserveTime fl"
    and "resolve pr fs src = Inr t" and "readable pr t" and "\<not> plain t" and "depth t \<le> n"
    and "vacant pr fs dest" and "\<not> prefix src dest"
  shows "(\<not> IgnoreUnsupportedFileTypes fl \<longrightarrow>
            (\<exists>m p fs'. Copy n (posix pr) fl (FileTypeCopyHandlers (posix pr)) src dest fs
                         = Some (Some (UnsupportedFileTypeError m p), fs')))
       \<and> (IgnoreUnsupportedFileTypes fl \<longrightarrow>
            Copy n (posix pr) fl (FileTypeCopyHandlers (posix pr)) src dest fs
              = Some (None, case img pr t of None \<Rightarrow> fs | Some t' \<Rightarrow> put dest t' fs)
            \<and> (\<forall>t'. img pr t = Some t' \<longrightarrow>
                  resolve pr (put dest t' fs) dest = Inr t'
                  \<and> (\<forall>q. node_at t' q = Option.bind (node_at t q) (img pr))))"
proof (intro conjI impI allI)
  assume ign: "\<not> IgnoreUnsupportedFileTypes fl"
  obtain m p fs' where
    "copy n (posix pr) fl (FileTypeCopyHandlers (posix pr)) src dest (file_info (base src) t) fs
       = Some (Some (UnsupportedFileTypeError m p), fs')"
    using copy_posix_unsupported [OF assms(1,2) ign assms(4,5,6,3,7,8)] by blast
  then have "Copy n (posix pr) fl (FileTypeCopyHandlers (posix pr)) src dest fs
      = Some (Some (UnsupportedFileTypeError m p), fs')"
    using ign by (simp add: Copy_posix [OF assms(3)])
  then show "\<exists>m p fs'. Copy n (posix pr) fl (FileTypeCopyHandlers (posix pr)) src dest fs
                         = Some (Some (UnsupportedFileTypeError m p), fs')"
    by blast
next
  assume "IgnoreUnsupportedFileTypes fl"
  then show "Copy n (posix pr) fl (FileTypeCopyHandlers (posix pr)) src dest fs
      = Some (None, case img pr t of None \<Rightarrow> fs | Some t' \<Rightarrow> put dest t' fs)"
    using assms by (intro Copy_posix_tree) simp_all
next
  fix t'
  show "resolve pr (put dest t' fs) dest = Inr t'"
    using assms(7) by (rule resolve_put_vacant_same)
next
  fix t' q
  assume "img pr t = Some t'"
  with assms(4) show "node_at t' q = Option.bind (node_at t q) (img pr)"
    by (rule node_at_img)
qed

theorem Copy_unsupported_policy_witness:
  "(\<exists>m p fs'. Copy 1 (posix user) default_Flags (FileTypeCopyHandlers (posix user))
                 [''src''] [''dst''] disk
               = Some (Some (UnsupportedFileTypeError m p), fs'))
   \<and> Copy 1 (posix user) (default_Flags\<lparr>IgnoreUnsupportedFileTypes := True\<rparr>)
        (FileTypeCopyHandlers (posix user)) [''src''] [''dst''] disk
     = Some (None,
             put [''dst'']
               (Directory (new_attrs user 0x140)
                  [(''a'', File (new_attrs user 0x180) [1, 2, 3]),
                   (''l'', Link (new_attrs user 0x1FF) ''/etc/hosts''),
                   (''z'', File (new_attrs user 0x1A4) [9])])
               disk)
   \<and> Copy 1 (posix user) default_Flags (FileTypeCopyHandlers (posix user))
        [''src''] [''dst''] disk
     = Some (Some (UnsupportedFileTypeError (ModeSymlink OR 0x1FF) [''src'', ''l'']),
             put [''dst'']
               (Directory (new_attrs user 0x140)
                  [(''a'', File (new_attrs user 0x180) [1, 2, 3]),
                   (''l'', Link (new_attrs user 0x1FF) ''/etc/hosts'')])
               disk)"
proof -
  let ?t = "Directory (owned 0x140)
              [(''a'', File (owned 0x180) [1, 2, 3]),
               (''l'', Link (owned 0x1FF) ''/etc/hosts''),
               (''p'', Special NamedPipe (owned 0x1A4)),
               (''z'', File (owned 0x1A4) [9])]"
  have aborted: "Copy 1 (posix user) default_Flags (FileTypeCopyHandlers (posix user))
        [''src''] [''dst''] disk
     = Some (Some (UnsupportedFileTypeError (ModeSymlink OR 0x1FF) [''src'', ''l'']),
             put [''dst'']
               (Directory (new_attrs user 0x140)
                  [(''a'', File (new_attrs user 0x180) [1, 2, 3]),
                   (''l'', Link (new_attrs user 0x1FF) ''/etc/hosts'')])
               disk)"
    by code_simp
  let ?ign = "default_Flags\<lparr>IgnoreUnsupportedFileTypes := True\<rparr>"
  have f: "\<not> PreserveOwner default_Flags" "\<not> PreserveTime default_Flags"
    "\<not> PreserveOwner ?ign" "\<not> PreserveTime ?ign"
    "\<not> IgnoreUnsupportedFileTypes default_Flags" "IgnoreUnsupportedFileTypes ?ign"
    by (simp_all add: default_Flags_def)
  have h1: "resolve user disk [''src''] = Inr ?t" by code_simp
  have h2: "readable user ?t" by code_simp
  have h3: "\<not> plain ?t" by code_simp
  have h4: "depth ?t \<le> 1" by code_simp
  have h5: "vacant user disk [''dst'']" by code_simp
  have h6: "\<not> prefix [''src''] [''dst'']" by simp
  have i: "img user ?t = Some (Directory (new_attrs user 0x140)
                  [(''a'', File (new_attrs user 0x180) [1, 2, 3]),
                   (''l'', Link (new_attrs user 0x1FF) ''/etc/hosts''),
                   (''z'', File (new_attrs user 0x1A4) [9])])"
    by code_simp
  show ?thesis
    using Copy_unsupported_policy [OF f(1,2) h1 h2 h3 h4 h5 h6]
      Copy_unsupported_policy [OF f(3,4) h1 h2 h3 h4 h5 h6] aborted
    by (simp only: f i option.case simp_thms)
qed




end
